theory Spec2Isabelle
  imports Complex_Main
begin

section \<open>JavaScript values\<close>

text \<open>
  The client of \<^verbatim>\<open>src/lib/oidc-client.js\<close> works on dynamically typed values: settings,
  callback results, decoded token payloads, key sets. They are modelled by one datatype.
  Strings are lists of 8-bit characters, read as the code units U+0000 to U+00FF. An
  object is the list of its own properties in insertion order. Functions are not values
  of the model, so calling a method on a receiver that does not have it is the
  \<open>TypeError\<close> JavaScript raises.

  A number is a double: a finite value, which is a rational, or NaN, or one of the two
  infinities. Every operation that produces a number rounds its exact result to the
  nearest double (\<open>to_double\<close> below). The two zeros are one value: the client never
  divides by a number, and in every other respect \<^verbatim>\<open>-0\<close> behaves as \<^verbatim>\<open>0\<close>.
\<close>

datatype number = Fin rat | NaN | PosInf | NegInf

datatype jsval =
    JUndefined
  | JNull
  | JBool bool
  | JNum number
  | JStr string
  | JArr "jsval list"
  | JObj "(string \<times> jsval) list"

text \<open>The number that an integer denotes, as a value.\<close>

abbreviation JInt :: "int \<Rightarrow> jsval" where
  "JInt n \<equiv> JNum (Fin (of_int n))"

text \<open>
  What a call can end with other than a value. \<open>Failure m\<close> is the \<^verbatim>\<open>Error(m)\<close> the
  client itself raises; \<open>TypeError\<close> and \<open>SyntaxError\<close> are raised by the language
  (a property read on \<^verbatim>\<open>null\<close>, a missing method, \<^verbatim>\<open>JSON.parse\<close>);
  \<open>TransportError m\<close> is a rejection of the HTTP collaborator with message \<open>m\<close>;
  \<open>NotRepresentable\<close> marks a JSON text with a string that has a code unit beyond
  U+00FF, written as an escape \<^verbatim>\<open>\uXXXX\<close>: the strings of the model do not hold it.
  A synchronous throw and a rejected promise are both the left injection of a sum.
\<close>

datatype failure =
    Failure string
  | TypeError
  | SyntaxError
  | TransportError string
  | NotRepresentable

definition bind_result :: "failure + 'a \<Rightarrow> ('a \<Rightarrow> failure + 'b) \<Rightarrow> failure + 'b" where
  "bind_result r f = (case r of Inl e \<Rightarrow> Inl e | Inr v \<Rightarrow> f v)"

text \<open>Truthiness: what \<^verbatim>\<open>if (v)\<close> and \<^verbatim>\<open>!v\<close> test.\<close>

fun js_truthy :: "jsval \<Rightarrow> bool" where
  "js_truthy JUndefined = False"
| "js_truthy JNull = False"
| "js_truthy (JBool b) = b"
| "js_truthy (JNum n) = (n \<noteq> Fin 0 \<and> n \<noteq> NaN)"
| "js_truthy (JStr s) = (s \<noteq> [])"
| "js_truthy (JArr xs) = True"
| "js_truthy (JObj ps) = True"

text \<open>
  Strict equality \<^verbatim>\<open>===\<close>. Primitives compare by value, and NaN equals nothing.
  Objects and arrays compare by identity; at every comparison of the client one side is
  a string literal or comes out of a fresh \<^verbatim>\<open>JSON.parse\<close>, so an object or array
  there is never identical to the other side.
\<close>

fun strict_eq :: "jsval \<Rightarrow> jsval \<Rightarrow> bool" where
  "strict_eq JUndefined JUndefined = True"
| "strict_eq JNull JNull = True"
| "strict_eq (JBool a) (JBool b) = (a = b)"
| "strict_eq (JNum a) (JNum b) = (a = b \<and> a \<noteq> NaN)"
| "strict_eq (JStr a) (JStr b) = (a = b)"
| "strict_eq _ _ = False"

subsection \<open>Doubles\<close>

text \<open>
  Rounding to the nearest double, a tie going to the even significand. A positive
  ratio \<open>n / d\<close> with binary exponent \<open>e = \<lfloor>log\<^sub>2 (n / d)\<rfloor>\<close> is rounded to a multiple of
  \<open>2 ^ p\<close> with \<open>p = max e (- 1022) - 52\<close>: that is 53 significant bits, and the fixed
  spacing \<open>2 ^ - 1074\<close> of the subnormal numbers below \<open>2 ^ - 1022\<close>. A result that
  reaches \<open>2 ^ 1024\<close> is an infinity.
\<close>

function floor_log2 :: "int \<Rightarrow> int" where
  "floor_log2 n = (if n < 2 then 0 else 1 + floor_log2 (n div 2))"
  by pat_completeness auto
termination
  by (relation "measure nat") auto

declare floor_log2.simps [simp del]

definition binary_exponent :: "int \<Rightarrow> int \<Rightarrow> int" where
  "binary_exponent n d =
     (let k = floor_log2 n - floor_log2 d
      in if (if k \<ge> 0 then d * 2 ^ nat k \<le> n else d \<le> n * 2 ^ nat (- k)) then k else k - 1)"

definition round_half_even :: "int \<Rightarrow> int \<Rightarrow> int" where
  "round_half_even n d =
     (let q = n div d; r = n mod d
      in if 2 * r < d \<or> (2 * r = d \<and> even q) then q else q + 1)"

definition double_of_ratio :: "int \<Rightarrow> int \<Rightarrow> number" where
  "double_of_ratio n d =
     (if n = 0 then Fin 0
      else let p = max (binary_exponent n d) (- 1022) - 52
           in if p \<ge> 0
              then (let m = round_half_even n (d * 2 ^ nat p)
                    in if m * 2 ^ nat p \<ge> 2 ^ 1024 then PosInf else Fin (of_int (m * 2 ^ nat p)))
              else Fin (of_int (round_half_even (n * 2 ^ nat (- p)) d) / of_int (2 ^ nat (- p))))"

fun negate :: "number \<Rightarrow> number" where
  "negate (Fin x) = Fin (- x)"
| "negate NaN = NaN"
| "negate PosInf = NegInf"
| "negate NegInf = PosInf"

definition to_double :: "rat \<Rightarrow> number" where
  "to_double q =
     (case quotient_of q of
        (n, d) \<Rightarrow> if n < 0 then negate (double_of_ratio (- n) d) else double_of_ratio n d)"

text \<open>
  The arithmetic and the order of numbers, as far as the client uses them: \<^verbatim>\<open>a - b\<close>
  and \<^verbatim>\<open>a < b\<close>. A difference with NaN is NaN, as is the difference of an infinity
  and itself; a comparison with NaN is false.
\<close>

fun num_minus :: "number \<Rightarrow> number \<Rightarrow> number" where
  "num_minus (Fin x) (Fin y) = to_double (x - y)"
| "num_minus (Fin x) PosInf = NegInf"
| "num_minus (Fin x) NegInf = PosInf"
| "num_minus PosInf (Fin y) = PosInf"
| "num_minus PosInf NegInf = PosInf"
| "num_minus NegInf (Fin y) = NegInf"
| "num_minus NegInf PosInf = NegInf"
| "num_minus a b = NaN"

fun num_less :: "number \<Rightarrow> number \<Rightarrow> bool" where
  "num_less (Fin x) (Fin y) = (x < y)"
| "num_less (Fin x) PosInf = True"
| "num_less NegInf (Fin y) = True"
| "num_less NegInf PosInf = True"
| "num_less a b = False"

subsection \<open>Conversion to strings\<close>

text \<open>The decimal digits of an integer that is not negative.\<close>

definition digit_char :: "int \<Rightarrow> char" where
  "digit_char d = char_of (48 + d)"

function decimal :: "int \<Rightarrow> string" where
  "decimal n = (if n < 10 then [digit_char n] else decimal (n div 10) @ [digit_char (n mod 10)])"
  by pat_completeness auto
termination
  by (relation "measure nat") auto

declare decimal.simps [simp del]

text \<open>
  The decimal exponent of a positive ratio \<open>a / b\<close>: the \<open>n\<close> with
  \<open>10 ^ (n - 1) \<le> a / b < 10 ^ n\<close>. It is the number of digits before the point, or minus
  the number of zeros between the point and the first digit.
\<close>

function leading_zeros :: "int \<Rightarrow> int \<Rightarrow> int" where
  "leading_zeros a b = (if a \<le> 0 \<or> b \<le> 10 * a then 0 else 1 + leading_zeros (10 * a) b)"
  by pat_completeness auto
termination
  by (relation "measure (\<lambda>(a, b). nat (b - a))") auto

declare leading_zeros.simps [simp del]

definition decimal_exponent :: "int \<Rightarrow> int \<Rightarrow> int" where
  "decimal_exponent a b =
     (if b \<le> a then int (length (decimal (a div b))) else - leading_zeros a b)"

definition times_pow10 :: "int \<Rightarrow> int \<Rightarrow> int \<Rightarrow> int \<times> int" where
  "times_pow10 a b e = (if e \<ge> 0 then (a * 10 ^ nat e, b) else (a, b * 10 ^ nat (- e)))"

text \<open>The double nearest to \<open>s \<times> 10 ^ e\<close>, for \<open>s\<close> not negative.\<close>

definition decimal_to_double :: "int \<Rightarrow> int \<Rightarrow> number" where
  "decimal_to_double s e = (case times_pow10 s 1 e of (x, y) \<Rightarrow> double_of_ratio x y)"

text \<open>
  \<^verbatim>\<open>Number::toString\<close> writes a positive number \<open>q\<close> with the fewest digits that
  still denote it: the least \<open>k\<close> for which some \<open>s\<close> of \<open>k\<close> digits has
  \<open>s \<times> 10 ^ (n - k)\<close> round to \<open>q\<close>, and of two such \<open>s\<close> the one nearer to \<open>q\<close>. The
  candidates for a given \<open>k\<close> are the two neighbours of \<open>q / 10 ^ (n - k)\<close>; seventeen
  digits denote every double.
\<close>

definition digits_candidate :: "rat \<Rightarrow> int \<Rightarrow> int \<Rightarrow> int option" where
  "digits_candidate q n k =
     (case quotient_of q of
        (a, b) \<Rightarrow>
          (case times_pow10 a b (k - n) of
             (x, y) \<Rightarrow>
               let lo = x div y;
                   hi = lo + 1;
                   ok_lo = (decimal_to_double lo (n - k) = Fin q);
                   ok_hi = (decimal_to_double hi (n - k) = Fin q)
               in if ok_lo \<and> ok_hi
                  then Some (if 2 * (x mod y) < y \<or> (2 * (x mod y) = y \<and> even lo) then lo else hi)
                  else if ok_lo then Some lo
                  else if ok_hi then Some hi
                  else None))"

fun shortest_digits :: "rat \<Rightarrow> int \<Rightarrow> int list \<Rightarrow> int \<times> int" where
  "shortest_digits q n [] =
     (case quotient_of q of (a, b) \<Rightarrow> (case times_pow10 a b (17 - n) of (x, y) \<Rightarrow> (x div y, 17)))"
| "shortest_digits q n (k # ks) =
     (case digits_candidate q n k of Some s \<Rightarrow> (s, k) | None \<Rightarrow> shortest_digits q n ks)"

text \<open>
  The digits are laid out by the decimal exponent \<open>n\<close>: as an integer with zeros
  appended, with a point inside, with \<^verbatim>\<open>0.\<close> and zeros in front, and in exponent
  form when \<open>n\<close> is above 21 or below \<open>- 5\<close>.
\<close>

definition positive_to_string :: "rat \<Rightarrow> string" where
  "positive_to_string q =
     (case quotient_of q of
        (a, b) \<Rightarrow>
          (case shortest_digits q (decimal_exponent a b) [1..17] of
             (s, k) \<Rightarrow>
               let ds = rev (dropWhile (\<lambda>c. c = CHR ''0'') (rev (decimal s)));
                   n = decimal_exponent a b + (int (length (decimal s)) - k);
                   k' = int (length ds)
               in if - 6 < n \<and> n \<le> 21 then
                    (if k' \<le> n then ds @ replicate (nat (n - k')) (CHR ''0'')
                     else if 0 < n then take (nat n) ds @ ''.'' @ drop (nat n) ds
                     else ''0.'' @ replicate (nat (- n)) (CHR ''0'') @ ds)
                  else
                    (let es = (if n - 1 < 0 then ''-'' else ''+'') @ decimal (abs (n - 1))
                     in if k' = 1 then ds @ ''e'' @ es
                        else take 1 ds @ ''.'' @ drop 1 ds @ ''e'' @ es)))"

fun number_to_string :: "number \<Rightarrow> string" where
  "number_to_string NaN = ''NaN''"
| "number_to_string PosInf = ''Infinity''"
| "number_to_string NegInf = ''-Infinity''"
| "number_to_string (Fin q) =
     (if q = 0 then ''0''
      else if q < 0 then ''-'' @ positive_to_string (- q)
      else positive_to_string q)"

fun join_comma :: "string list \<Rightarrow> string" where
  "join_comma [] = []"
| "join_comma [s] = s"
| "join_comma (s # t # ts) = s @ '','' @ join_comma (t # ts)"

text \<open>\<^verbatim>\<open>ToString\<close>, as string concatenation and \<^verbatim>\<open>encodeURIComponent\<close> apply it.\<close>

fun ToString :: "jsval \<Rightarrow> string" where
  "ToString JUndefined = ''undefined''"
| "ToString JNull = ''null''"
| "ToString (JBool b) = (if b then ''true'' else ''false'')"
| "ToString (JNum n) = number_to_string n"
| "ToString (JStr s) = s"
| "ToString (JArr xs) =
     join_comma (map (\<lambda>x. if x = JUndefined \<or> x = JNull then [] else ToString x) xs)"
| "ToString (JObj ps) = ''[object Object]''"

subsection \<open>Conversion to numbers\<close>

text \<open>
  White space of the language in the range of the model: TAB, LF, VT, FF, CR, SP and the
  no-break space U+00A0. It is what \<^verbatim>\<open>\s\<close> matches and what number conversion trims.
\<close>

definition is_ws :: "char \<Rightarrow> bool" where
  "is_ws c = (of_char c \<in> {9::nat, 10, 11, 12, 13, 32, 160})"

definition is_digit :: "char \<Rightarrow> bool" where
  "is_digit c = (48 \<le> (of_char c :: nat) \<and> (of_char c :: nat) \<le> 57)"

definition digits_value :: "string \<Rightarrow> int" where
  "digits_value s = foldl (\<lambda>acc c. 10 * acc + (of_char c - 48)) 0 s"

definition is_hex :: "char \<Rightarrow> bool" where
  "is_hex c =
     (let n = (of_char c :: nat)
      in (48 \<le> n \<and> n \<le> 57) \<or> (65 \<le> n \<and> n \<le> 70) \<or> (97 \<le> n \<and> n \<le> 102))"

definition hex_value :: "char \<Rightarrow> nat" where
  "hex_value c =
     (let n = (of_char c :: nat)
      in if n \<le> 57 then n - 48 else if n \<le> 70 then n - 55 else n - 87)"

text \<open>
  An exponent part \<^verbatim>\<open>[eE] [+-]? [0-9]+\<close> at the head of a text: its value and the
  text after it. A text that does not begin with \<^verbatim>\<open>e\<close> has the exponent 0; \<open>None\<close>
  when digits are missing after the \<^verbatim>\<open>e\<close>.
\<close>

definition scan_exp :: "string \<Rightarrow> (int \<times> string) option" where
  "scan_exp r =
     (if r \<noteq> [] \<and> (hd r = CHR ''e'' \<or> hd r = CHR ''E'')
      then (let r1 = tl r;
                eneg = (r1 \<noteq> [] \<and> hd r1 = CHR ''-'');
                r2 = (if r1 \<noteq> [] \<and> (hd r1 = CHR ''-'' \<or> hd r1 = CHR ''+'') then tl r1 else r1);
                ep = takeWhile is_digit r2
            in if ep = [] then None
               else Some (if eneg then - digits_value ep else digits_value ep,
                          dropWhile is_digit r2))
      else Some (0, r))"

text \<open>
  The numeric string literals: \<^verbatim>\<open>Infinity\<close>; decimal digits with an optional point
  and an optional exponent, of which the digits before or after the point may be
  missing but not both; and, without a sign, the binary, octal and hexadecimal integers
  \<^verbatim>\<open>0b\<close>, \<^verbatim>\<open>0o\<close>, \<^verbatim>\<open>0x\<close>. White space around the literal is dropped, and the
  empty string is 0. Every other string is NaN.
\<close>

definition radix_literal :: "nat \<Rightarrow> string \<Rightarrow> number" where
  "radix_literal base ds =
     (if ds \<noteq> [] \<and> list_all (\<lambda>c. is_hex c \<and> hex_value c < base) ds
      then double_of_ratio (foldl (\<lambda>acc c. int base * acc + int (hex_value c)) 0 ds) 1
      else NaN)"

definition unsigned_decimal_literal :: "string \<Rightarrow> number" where
  "unsigned_decimal_literal t =
     (if t = ''Infinity'' then PosInf
      else let ip = takeWhile is_digit t;
               r1 = dropWhile is_digit t;
               dot = (r1 \<noteq> [] \<and> hd r1 = CHR ''.'');
               fp = (if dot then takeWhile is_digit (tl r1) else []);
               r2 = (if dot then dropWhile is_digit (tl r1) else r1)
           in if ip = [] \<and> fp = [] then NaN
              else case scan_exp r2 of
                     Some (e, []) \<Rightarrow> decimal_to_double (digits_value (ip @ fp)) (e - int (length fp))
                   | _ \<Rightarrow> NaN)"

definition StringToNumber :: "string \<Rightarrow> number" where
  "StringToNumber s =
     (let t = rev (dropWhile is_ws (rev (dropWhile is_ws s)))
      in if t = [] then Fin 0
         else if take 2 t = ''0x'' \<or> take 2 t = ''0X'' then radix_literal 16 (drop 2 t)
         else if take 2 t = ''0o'' \<or> take 2 t = ''0O'' then radix_literal 8 (drop 2 t)
         else if take 2 t = ''0b'' \<or> take 2 t = ''0B'' then radix_literal 2 (drop 2 t)
         else if hd t = CHR ''-'' then negate (unsigned_decimal_literal (tl t))
         else if hd t = CHR ''+'' then unsigned_decimal_literal (tl t)
         else unsigned_decimal_literal t)"

text \<open>
  \<^verbatim>\<open>ToNumber\<close>. An array is converted through its string, as the language does; an
  object of the model has the string \<^verbatim>\<open>[object Object]\<close>, which is no number.
\<close>

fun ToNumber :: "jsval \<Rightarrow> number" where
  "ToNumber JUndefined = NaN"
| "ToNumber JNull = Fin 0"
| "ToNumber (JBool b) = Fin (if b then 1 else 0)"
| "ToNumber (JNum n) = n"
| "ToNumber (JStr s) = StringToNumber s"
| "ToNumber (JArr xs) = StringToNumber (ToString (JArr xs))"
| "ToNumber (JObj ps) = NaN"

text \<open>
  The operators the client applies to values that may not be numbers: \<^verbatim>\<open>a - b\<close>, and
  the comparisons \<^verbatim>\<open>a > b\<close>, \<^verbatim>\<open>a < b\<close> with an integer on the right.
\<close>

definition js_minus :: "jsval \<Rightarrow> jsval \<Rightarrow> number" where
  "js_minus a b = num_minus (ToNumber a) (ToNumber b)"

definition num_gt :: "number \<Rightarrow> int \<Rightarrow> bool" where
  "num_gt a b = num_less (Fin (of_int b)) a"

definition js_lt_num :: "jsval \<Rightarrow> int \<Rightarrow> bool" where
  "js_lt_num a b = num_less (ToNumber a) (Fin (of_int b))"

subsection \<open>Property access\<close>

text \<open>An array index as a property key: the canonical decimal spelling of a number.\<close>

definition index_of_key :: "string \<Rightarrow> nat option" where
  "index_of_key k =
     (if k \<noteq> [] \<and> list_all is_digit k \<and> (k = ''0'' \<or> hd k \<noteq> CHR ''0'')
      then Some (nat (digits_value k)) else None)"

text \<open>
  \<^verbatim>\<open>v.k\<close> and \<^verbatim>\<open>v[k]\<close>. Reading a property of \<^verbatim>\<open>undefined\<close> or \<^verbatim>\<open>null\<close> raises;
  a missing property reads as \<^verbatim>\<open>undefined\<close>. None of the property names the client
  reads is inherited from a prototype, so only own properties, \<^verbatim>\<open>length\<close> and indices
  are modelled.
\<close>

fun get_prop :: "jsval \<Rightarrow> string \<Rightarrow> failure + jsval" where
  "get_prop JUndefined k = Inl TypeError"
| "get_prop JNull k = Inl TypeError"
| "get_prop (JBool b) k = Inr JUndefined"
| "get_prop (JNum n) k = Inr JUndefined"
| "get_prop (JStr s) k =
     Inr (if k = ''length'' then JInt (int (length s))
          else case index_of_key k of
                 Some i \<Rightarrow> if i < length s then JStr [s ! i] else JUndefined
               | None \<Rightarrow> JUndefined)"
| "get_prop (JArr xs) k =
     Inr (if k = ''length'' then JInt (int (length xs))
          else case index_of_key k of
                 Some i \<Rightarrow> if i < length xs then xs ! i else JUndefined
               | None \<Rightarrow> JUndefined)"
| "get_prop (JObj ps) k = Inr (case map_of ps k of Some v \<Rightarrow> v | None \<Rightarrow> JUndefined)"

text \<open>\<^verbatim>\<open>delete v[k]\<close>: removes an own property of an object, and nothing otherwise.\<close>

fun delete_prop :: "jsval \<Rightarrow> string \<Rightarrow> jsval" where
  "delete_prop (JObj ps) k = JObj (filter (\<lambda>p. fst p \<noteq> k) ps)"
| "delete_prop v k = v"

text \<open>\<^verbatim>\<open>o[k] = v\<close> on an object's property list: overwrite in place, or append.\<close>

fun set_entry :: "string \<Rightarrow> jsval \<Rightarrow> (string \<times> jsval) list \<Rightarrow> (string \<times> jsval) list" where
  "set_entry k v [] = [(k, v)]"
| "set_entry k v (p # ps) = (if fst p = k then (k, v) # ps else p # set_entry k v ps)"

subsection \<open>String methods\<close>

text \<open>
  \<^verbatim>\<open>s.split(/\s+/g)\<close>: the pieces between maximal runs of white space. A leading or
  trailing run leaves an empty first or last piece, and the empty string gives one
  empty piece.
\<close>

function split_ws :: "string \<Rightarrow> string list" where
  "split_ws s =
     (let tok = takeWhile (\<lambda>c. \<not> is_ws c) s;
          rest = dropWhile (\<lambda>c. \<not> is_ws c) s
      in if rest = [] then [tok] else tok # split_ws (dropWhile is_ws (tl rest)))"
  by pat_completeness auto
termination
proof (relation "measure length")
  show "wf (measure length)" by simp
next
  fix s :: string and x xa
  assume a: "xa = dropWhile (\<lambda>c. \<not> is_ws c) s" "xa \<noteq> []"
  have "length (dropWhile is_ws (tl xa)) \<le> length (tl xa)"
    by (rule length_dropWhile_le)
  also have "\<dots> < length xa" using a by (cases xa) simp_all
  also have "\<dots> \<le> length s" using a by (simp add: length_dropWhile_le)
  finally show "(dropWhile is_ws (tl xa), s) \<in> measure length" by simp
qed

declare split_ws.simps [simp del]

definition js_split_ws :: "jsval \<Rightarrow> failure + jsval list" where
  "js_split_ws v = (case v of JStr s \<Rightarrow> Inr (map JStr (split_ws s)) | _ \<Rightarrow> Inl TypeError)"

text \<open>\<^verbatim>\<open>s.toLowerCase()\<close> on the code units of the model (ASCII and Latin-1 capitals).\<close>

definition lower_char :: "char \<Rightarrow> char" where
  "lower_char c =
     (let n = (of_char c :: nat)
      in if (65 \<le> n \<and> n \<le> 90) \<or> (192 \<le> n \<and> n \<le> 222 \<and> n \<noteq> 215) then char_of (n + 32) else c)"

definition toLowerCase :: "jsval \<Rightarrow> failure + jsval" where
  "toLowerCase v = (case v of JStr s \<Rightarrow> Inr (JStr (map lower_char s)) | _ \<Rightarrow> Inl TypeError)"

text \<open>\<^verbatim>\<open>indexOf\<close> of strings (a substring search) and of arrays (a strict-equality search).\<close>

fun str_indexOf :: "string \<Rightarrow> string \<Rightarrow> nat \<Rightarrow> int" where
  "str_indexOf [] needle i = (if needle = [] then int i else - 1)"
| "str_indexOf (c # cs) needle i =
     (if take (length needle) (c # cs) = needle then int i else str_indexOf cs needle (Suc i))"

fun arr_indexOf :: "jsval list \<Rightarrow> jsval \<Rightarrow> nat \<Rightarrow> int" where
  "arr_indexOf [] x i = - 1"
| "arr_indexOf (y # ys) x i = (if strict_eq y x then int i else arr_indexOf ys x (Suc i))"

definition indexOf :: "jsval \<Rightarrow> jsval \<Rightarrow> failure + int" where
  "indexOf v x =
     (case v of
        JStr s \<Rightarrow> Inr (str_indexOf s (ToString x) 0)
      | JArr xs \<Rightarrow> Inr (arr_indexOf xs x 0)
      | _ \<Rightarrow> Inl TypeError)"

text \<open>\<^verbatim>\<open>a + "text"\<close>: with a string operand, \<^verbatim>\<open>+\<close> concatenates.\<close>

definition js_concat :: "jsval \<Rightarrow> string \<Rightarrow> jsval" where
  "js_concat a s = JStr (ToString a @ s)"

subsection \<open>\<^verbatim>\<open>encodeURIComponent\<close>\<close>

text \<open>
  Every code unit is kept when it is a letter, a digit or one of \<^verbatim>\<open>- _ . ! ~ * ' ( )\<close>,
  and is otherwise replaced by its UTF-8 bytes, each written \<^verbatim>\<open>%XX\<close> in upper-case
  hexadecimal. A code unit from U+0080 to U+00FF has two UTF-8 bytes.
\<close>

definition hex_digit :: "nat \<Rightarrow> char" where
  "hex_digit d = ''0123456789ABCDEF'' ! d"

definition pct_byte :: "nat \<Rightarrow> string" where
  "pct_byte n = [CHR ''%'', hex_digit (n div 16), hex_digit (n mod 16)]"

definition is_uri_unreserved :: "char \<Rightarrow> bool" where
  "is_uri_unreserved c =
     (let n = (of_char c :: nat)
      in (65 \<le> n \<and> n \<le> 90) \<or> (97 \<le> n \<and> n \<le> 122) \<or> (48 \<le> n \<and> n \<le> 57)
         \<or> c \<in> set ''-_.!~*()'' \<or> c = CHR 0x27)"

definition encode_char :: "char \<Rightarrow> string" where
  "encode_char c =
     (let n = (of_char c :: nat)
      in if is_uri_unreserved c then [c]
         else if n < 128 then pct_byte n
         else pct_byte (192 + n div 64) @ pct_byte (128 + n mod 64))"

definition encodeURIComponent :: "jsval \<Rightarrow> string" where
  "encodeURIComponent v = concat (map encode_char (ToString v))"

subsection \<open>\<^verbatim>\<open>JSON.parse\<close>\<close>

text \<open>
  The JSON grammar, read in two passes: a lexer from characters to tokens and a pushdown
  parser from tokens to a value. A string token holds \<open>None\<close> when the text is
  well-formed but has an escape beyond U+00FF, a code unit the strings of the model do
  not hold.
\<close>

datatype token =
    TLBrace | TRBrace | TLBrack | TRBrack | TColon | TComma
  | TString "string option"
  | TNumber number
  | TTrue | TFalse | TNull

definition simple_escape :: "char \<Rightarrow> char option" where
  "simple_escape e =
     (if e = CHR 0x22 then Some (CHR 0x22)
      else if e = CHR 0x5C then Some (CHR 0x5C)
      else if e = CHR ''/'' then Some (CHR ''/'')
      else if e = CHR ''b'' then Some (CHR 0x08)
      else if e = CHR ''f'' then Some (CHR 0x0C)
      else if e = CHR ''n'' then Some (CHR 0x0A)
      else if e = CHR ''r'' then Some (CHR 0x0D)
      else if e = CHR ''t'' then Some (CHR 0x09)
      else None)"

text \<open>
  The body of a string literal, after its opening quote. The mode says where the scan
  stands: between characters, after a backslash, or inside \<^verbatim>\<open>\uXXXX\<close> with the
  number of digits still to come and the value read so far. The accumulator holds the
  characters in reverse and whether all of them are characters of the model.
\<close>

datatype smode = SNormal | SEscape | SUnicode nat nat

fun scan_string :: "smode \<Rightarrow> string \<Rightarrow> bool \<Rightarrow> string \<Rightarrow> (string option \<times> string) option" where
  "scan_string m acc ok [] = None"
| "scan_string SNormal acc ok (c # cs) =
     (if c = CHR 0x22 then Some (if ok then Some (rev acc) else None, cs)
      else if c = CHR 0x5C then scan_string SEscape acc ok cs
      else if (of_char c :: nat) < 32 then None
      else scan_string SNormal (c # acc) ok cs)"
| "scan_string SEscape acc ok (c # cs) =
     (if c = CHR ''u'' then scan_string (SUnicode 4 0) acc ok cs
      else case simple_escape c of
             Some d \<Rightarrow> scan_string SNormal (d # acc) ok cs
           | None \<Rightarrow> None)"
| "scan_string (SUnicode k v) acc ok (c # cs) =
     (if \<not> is_hex c then None
      else let v' = 16 * v + hex_value c
           in if k = 1 then
                (if v' < 256 then scan_string SNormal (char_of v' # acc) ok cs
                 else scan_string SNormal acc False cs)
              else scan_string (SUnicode (k - 1) v') acc ok cs)"

text \<open>
  A number literal: \<^verbatim>\<open>-? (0 | [1-9][0-9]*) (. [0-9]+)? ([eE] [+-]? [0-9]+)?\<close>.
  Its value is the double nearest to the digits scaled by the power of ten.
\<close>

definition scale_number :: "bool \<Rightarrow> int \<Rightarrow> int \<Rightarrow> number" where
  "scale_number neg m e = (if neg then negate (decimal_to_double m e) else decimal_to_double m e)"

definition scan_frac :: "string \<Rightarrow> (string \<times> string) option" where
  "scan_frac r =
     (if r \<noteq> [] \<and> hd r = CHR ''.''
      then (if takeWhile is_digit (tl r) = [] then None
            else Some (takeWhile is_digit (tl r), dropWhile is_digit (tl r)))
      else Some ([], r))"

definition scan_number :: "string \<Rightarrow> (number \<times> string) option" where
  "scan_number s =
     (let neg = (s \<noteq> [] \<and> hd s = CHR ''-'');
          s1 = (if neg then tl s else s);
          ip = takeWhile is_digit s1
      in if ip = [] \<or> (length ip > 1 \<and> hd ip = CHR ''0'') then None
         else case scan_frac (dropWhile is_digit s1) of
                None \<Rightarrow> None
              | Some (fp, r2) \<Rightarrow>
                  (case scan_exp r2 of
                     None \<Rightarrow> None
                   | Some (e, r3) \<Rightarrow>
                       Some (scale_number neg (digits_value (ip @ fp)) (e - int (length fp)), r3)))"

definition is_json_ws :: "char \<Rightarrow> bool" where
  "is_json_ws c = (of_char c \<in> {9::nat, 10, 13, 32})"

definition punctuation :: "char \<Rightarrow> token option" where
  "punctuation c =
     (if c = CHR ''{'' then Some TLBrace
      else if c = CHR ''}'' then Some TRBrace
      else if c = CHR ''['' then Some TLBrack
      else if c = CHR '']'' then Some TRBrack
      else if c = CHR '':'' then Some TColon
      else if c = CHR '','' then Some TComma
      else None)"

text \<open>One token and the text after it; \<open>None\<close> when no token starts the text.\<close>

definition next_token :: "string \<Rightarrow> (token \<times> string) option" where
  "next_token s =
     (case s of
        [] \<Rightarrow> None
      | c # cs \<Rightarrow>
          (case punctuation c of
             Some t \<Rightarrow> Some (t, cs)
           | None \<Rightarrow>
               if c = CHR 0x22 then map_option (\<lambda>(v, r). (TString v, r)) (scan_string SNormal [] True cs)
               else if take 4 s = ''true'' then Some (TTrue, drop 4 s)
               else if take 5 s = ''false'' then Some (TFalse, drop 5 s)
               else if take 4 s = ''null'' then Some (TNull, drop 4 s)
               else map_option (\<lambda>(v, r). (TNumber v, r)) (scan_number s)))"

text \<open>Every token consumes at least one character, so the lexer terminates.\<close>

lemma scan_string_shorter:
  "scan_string m acc ok cs = Some (v, r) \<Longrightarrow> length r < length cs"
proof (induction m acc ok cs rule: scan_string.induct)
  case (4 k v' acc ok c cs)
  then show ?case by (auto simp: Let_def split: if_splits)
qed (auto split: if_splits option.splits)

lemma scan_frac_le: "scan_frac r = Some (fp, r') \<Longrightarrow> length r' \<le> length r"
  unfolding scan_frac_def
  by (cases r) (auto split: if_splits intro: le_SucI length_dropWhile_le)

lemma scan_exp_le: "scan_exp r = Some (e, r') \<Longrightarrow> length r' \<le> length r"
proof (cases r)
  case Nil
  then show "scan_exp r = Some (e, r') \<Longrightarrow> length r' \<le> length r" by (simp add: scan_exp_def)
next
  case (Cons c cs)
  assume a: "scan_exp r = Some (e, r')"
  show "length r' \<le> length r"
  proof (cases "c = CHR ''e'' \<or> c = CHR ''E''")
    case False
    then show ?thesis using a Cons by (simp add: scan_exp_def)
  next
    case True
    define r2 where "r2 = (if cs \<noteq> [] \<and> (hd cs = CHR ''-'' \<or> hd cs = CHR ''+'') then tl cs else cs)"
    have "r' = dropWhile is_digit r2"
      using a Cons True unfolding scan_exp_def r2_def Let_def by (auto split: if_splits)
    moreover have "length r2 \<le> length cs" unfolding r2_def by simp
    moreover have "length (dropWhile is_digit r2) \<le> length r2" by (rule length_dropWhile_le)
    ultimately show ?thesis using Cons by simp
  qed
qed

lemma dropWhile_shorter: "takeWhile P xs \<noteq> [] \<Longrightarrow> length (dropWhile P xs) < length xs"
  by (cases xs) (auto simp: le_imp_less_Suc length_dropWhile_le split: if_splits)

lemma scan_number_shorter:
  assumes "scan_number s = Some (v, r)"
  shows "length r < length s"
proof -
  define s1 where "s1 = (if s \<noteq> [] \<and> hd s = CHR ''-'' then tl s else s)"
  from assms obtain fp r2 e where
    ip: "takeWhile is_digit s1 \<noteq> []" and
    f: "scan_frac (dropWhile is_digit s1) = Some (fp, r2)" and
    x: "scan_exp r2 = Some (e, r)"
    unfolding scan_number_def s1_def Let_def
    by (simp split: if_splits option.splits prod.splits)
  have "length r \<le> length r2" using x by (rule scan_exp_le)
  also have "\<dots> \<le> length (dropWhile is_digit s1)" using f by (rule scan_frac_le)
  also have "\<dots> < length s1" using ip by (rule dropWhile_shorter)
  also have "\<dots> \<le> length s" unfolding s1_def by simp
  finally show ?thesis .
qed

lemma next_token_shorter:
  assumes "next_token s = Some (t, r)"
  shows "length r < length s"
proof (cases s)
  case Nil
  then show ?thesis using assms by (simp add: next_token_def)
next
  case (Cons c cs)
  show ?thesis
  proof (cases "punctuation c")
    case (Some p)
    then show ?thesis using assms Cons by (simp add: next_token_def)
  next
    case None
    show ?thesis
    proof (cases "c = CHR 0x22")
      case True
      then obtain v where "scan_string SNormal [] True cs = Some (v, r)"
        using assms Cons None by (auto simp: next_token_def)
      then have "length r < length cs" by (rule scan_string_shorter)
      then show ?thesis using Cons by simp
    next
      case False
      have "(take 4 s = ''true'' \<and> r = drop 4 s) \<or> (take 5 s = ''false'' \<and> r = drop 5 s)
            \<or> (take 4 s = ''null'' \<and> r = drop 4 s) \<or> (\<exists>v. scan_number s = Some (v, r))"
        using assms Cons None False by (auto simp: next_token_def split: if_splits)
      then show ?thesis using Cons by (auto dest: scan_number_shorter)
    qed
  qed
qed

text \<open>The tokens of a text, white space skipped; \<open>None\<close> when some piece is no token.\<close>

function tokenize :: "string \<Rightarrow> token list option" where
  "tokenize s =
     (let s' = dropWhile is_json_ws s
      in if s' = [] then Some []
         else case next_token s' of
                None \<Rightarrow> None
              | Some (t, r) \<Rightarrow> map_option ((#) t) (tokenize r))"
  by pat_completeness auto
termination
proof (relation "measure length")
  show "wf (measure length)" by simp
next
  fix s s' :: string and x t r
  assume "s' = dropWhile is_json_ws s" and "next_token s' = Some x" and "(t, r) = x"
  then have "length r < length s'" and "length s' \<le> length s"
    by (auto dest: next_token_shorter simp: length_dropWhile_le)
  then show "(r, s) \<in> measure length" by simp
qed

declare tokenize.simps [simp del]

text \<open>
  The parser keeps a stack of the containers that are still open: an array with the
  elements read so far, an object with its properties, or an object that has read a key
  and waits for the value. A repeated key overwrites the earlier value in place.
\<close>

datatype frame =
    FArr "jsval list"
  | FObj "(string \<times> jsval) list"
  | FKey "(string \<times> jsval) list" string

datatype pmode = WantValue | WantValueOrEnd | WantKey | WantKeyOrEnd | WantColon | WantSep | Finished jsval

record pstate =
  pmode_of :: pmode
  stack :: "frame list"
  representable :: bool

fun push_value :: "jsval \<Rightarrow> bool \<Rightarrow> frame list \<Rightarrow> pstate option" where
  "push_value v ok [] = Some \<lparr>pmode_of = Finished v, stack = [], representable = ok\<rparr>"
| "push_value v ok (FArr xs # st) =
     Some \<lparr>pmode_of = WantSep, stack = FArr (xs @ [v]) # st, representable = ok\<rparr>"
| "push_value v ok (FKey ps k # st) =
     Some \<lparr>pmode_of = WantSep, stack = FObj (set_entry k v ps) # st, representable = ok\<rparr>"
| "push_value v ok (FObj ps # st) = None"

fun open_or_scalar :: "token \<Rightarrow> bool \<Rightarrow> frame list \<Rightarrow> pstate option" where
  "open_or_scalar TLBrack ok st = Some \<lparr>pmode_of = WantValueOrEnd, stack = FArr [] # st, representable = ok\<rparr>"
| "open_or_scalar TLBrace ok st = Some \<lparr>pmode_of = WantKeyOrEnd, stack = FObj [] # st, representable = ok\<rparr>"
| "open_or_scalar (TString (Some s)) ok st = push_value (JStr s) ok st"
| "open_or_scalar (TString None) ok st = push_value JNull False st"
| "open_or_scalar (TNumber n) ok st = push_value (JNum n) ok st"
| "open_or_scalar TTrue ok st = push_value (JBool True) ok st"
| "open_or_scalar TFalse ok st = push_value (JBool False) ok st"
| "open_or_scalar TNull ok st = push_value JNull ok st"
| "open_or_scalar t ok st = None"

fun take_key :: "token \<Rightarrow> bool \<Rightarrow> frame list \<Rightarrow> pstate option" where
  "take_key (TString (Some k)) ok (FObj ps # st) =
     Some \<lparr>pmode_of = WantColon, stack = FKey ps k # st, representable = ok\<rparr>"
| "take_key (TString None) ok (FObj ps # st) =
     Some \<lparr>pmode_of = WantColon, stack = FKey ps [] # st, representable = False\<rparr>"
| "take_key t ok st = None"

fun parse_step :: "pstate \<Rightarrow> token \<Rightarrow> pstate option" where
  "parse_step p t =
     (let ok = representable p; st = stack p
      in case pmode_of p of
           WantValue \<Rightarrow> open_or_scalar t ok st
         | WantValueOrEnd \<Rightarrow>
             (case (t, st) of
                (TRBrack, FArr xs # st') \<Rightarrow> push_value (JArr xs) ok st'
              | _ \<Rightarrow> open_or_scalar t ok st)
         | WantKey \<Rightarrow> take_key t ok st
         | WantKeyOrEnd \<Rightarrow>
             (case (t, st) of
                (TRBrace, FObj ps # st') \<Rightarrow> push_value (JObj ps) ok st'
              | _ \<Rightarrow> take_key t ok st)
         | WantColon \<Rightarrow>
             (case t of TColon \<Rightarrow> Some (p\<lparr>pmode_of := WantValue\<rparr>) | _ \<Rightarrow> None)
         | WantSep \<Rightarrow>
             (case (t, st) of
                (TComma, FArr xs # st') \<Rightarrow> Some (p\<lparr>pmode_of := WantValue\<rparr>)
              | (TRBrack, FArr xs # st') \<Rightarrow> push_value (JArr xs) ok st'
              | (TComma, FObj ps # st') \<Rightarrow> Some (p\<lparr>pmode_of := WantKey\<rparr>)
              | (TRBrace, FObj ps # st') \<Rightarrow> push_value (JObj ps) ok st'
              | _ \<Rightarrow> None)
         | Finished v \<Rightarrow> None)"

fun parse_tokens :: "pstate \<Rightarrow> token list \<Rightarrow> pstate option" where
  "parse_tokens p [] = Some p"
| "parse_tokens p (t # ts) = (case parse_step p t of None \<Rightarrow> None | Some p' \<Rightarrow> parse_tokens p' ts)"

text \<open>
  \<^verbatim>\<open>JSON.parse(text)\<close>: the argument is converted to a string first, so an object
  passed in place of a text is read as \<^verbatim>\<open>[object Object]\<close> and is a syntax error.
\<close>

definition JSON_parse :: "jsval \<Rightarrow> failure + jsval" where
  "JSON_parse text =
     (case tokenize (ToString text) of
        None \<Rightarrow> Inl SyntaxError
      | Some ts \<Rightarrow>
          (case parse_tokens \<lparr>pmode_of = WantValue, stack = [], representable = True\<rparr> ts of
             None \<Rightarrow> Inl SyntaxError
           | Some p \<Rightarrow>
               (case pmode_of p of
                  Finished v \<Rightarrow> if representable p then Inr v else Inl NotRepresentable
                | _ \<Rightarrow> Inl SyntaxError)))"


subsection \<open>\<^verbatim>\<open>JSON.stringify\<close>\<close>

definition hex_lower :: "nat \<Rightarrow> char" where
  "hex_lower d = ''0123456789abcdef'' ! d"

definition quote_char :: "char \<Rightarrow> string" where
  "quote_char c =
     (let n = (of_char c :: nat)
      in if c = CHR 0x22 then [CHR 0x5C, CHR 0x22]
         else if c = CHR 0x5C then [CHR 0x5C, CHR 0x5C]
         else if n = 8 then [CHR 0x5C, CHR ''b'']
         else if n = 12 then [CHR 0x5C, CHR ''f'']
         else if n = 10 then [CHR 0x5C, CHR ''n'']
         else if n = 13 then [CHR 0x5C, CHR ''r'']
         else if n = 9 then [CHR 0x5C, CHR ''t'']
         else if n < 32 then [CHR 0x5C, CHR ''u'', CHR ''0'', CHR ''0'', hex_lower (n div 16), hex_lower (n mod 16)]
         else [c])"

definition quote :: "string \<Rightarrow> string" where
  "quote s = [CHR 0x22] @ concat (map quote_char s) @ [CHR 0x22]"

text \<open>
  \<open>None\<close> is the \<^verbatim>\<open>undefined\<close> that \<^verbatim>\<open>JSON.stringify(undefined)\<close> returns. A property
  whose value is \<^verbatim>\<open>undefined\<close> is left out of an object; in an array it is written \<^verbatim>\<open>null\<close>.
  A number that is not finite is written \<^verbatim>\<open>null\<close>.
\<close>

fun JSON_stringify :: "jsval \<Rightarrow> string option" where
  "JSON_stringify JUndefined = None"
| "JSON_stringify JNull = Some ''null''"
| "JSON_stringify (JBool b) = Some (if b then ''true'' else ''false'')"
| "JSON_stringify (JNum n) = Some (case n of Fin q \<Rightarrow> number_to_string n | _ \<Rightarrow> ''null'')"
| "JSON_stringify (JStr s) = Some (quote s)"
| "JSON_stringify (JArr xs) =
     Some (''['' @ join_comma (map (\<lambda>x. case JSON_stringify x of None \<Rightarrow> ''null'' | Some t \<Rightarrow> t) xs) @ '']'')"
| "JSON_stringify (JObj ps) =
     Some (''{'' @ join_comma (concat (map (\<lambda>p. case JSON_stringify (snd p) of
                                                    None \<Rightarrow> []
                                                  | Some t \<Rightarrow> [quote (fst p) @ '':'' @ t]) ps)) @ ''}'')"


section \<open>The client\<close>

subsection \<open>Collaborators and state\<close>

text \<open>
  What the client consumes from outside the repository, as parameters of the model:
  \<^item> \<open>getJson url token httpSettings\<close>: the HTTP fetch of \<^verbatim>\<open>utility.getJson\<close>; it
    resolves with a value or rejects with an error, of which the message is kept;
  \<^item> \<open>verifyJWSByPemX509Cert token cert\<close>: the signature check of the JWS library,
    \<open>Some payload\<close> with the payload text (\<^verbatim>\<open>parsedJWS.payloadS\<close>) when the signature
    is valid;
  \<^item> \<open>sha256\<close> and \<open>hextob64u\<close>: the hash (as a hexadecimal string) and the conversion
    from hexadecimal to base64url of the same library;
  \<^item> \<open>Date_now\<close>: the clock, in milliseconds.
\<close>

record env =
  getJson :: "jsval \<Rightarrow> jsval \<Rightarrow> jsval \<Rightarrow> string + jsval"
  verifyJWSByPemX509Cert :: "jsval \<Rightarrow> jsval \<Rightarrow> string option"
  sha256 :: "jsval \<Rightarrow> string"
  hextob64u :: "string \<Rightarrow> string"
  Date_now :: int

text \<open>
  The mutable state: the settings object of the client (a property that is not set reads
  \<^verbatim>\<open>undefined\<close>), and the request-state store, with \<^verbatim>\<open>get(key)\<close> a lookup and
  \<^verbatim>\<open>set(key, value)\<close> an update; \<^verbatim>\<open>set(key)\<close> stores \<^verbatim>\<open>undefined\<close>, which clears
  the entry.
\<close>

record client =
  settings :: "string \<Rightarrow> jsval"
  request_state_store :: "jsval \<Rightarrow> jsval"

text \<open>
  A call runs on the state and ends with a failure or a value, and the state it leaves.
  \<open>then_do\<close> is \<^verbatim>\<open>.then(callback)\<close>, and sequencing of statements: a failure skips
  what follows.
\<close>

type_synonym 'a promise = "client \<Rightarrow> (failure + 'a) \<times> client"

definition resolve :: "'a \<Rightarrow> 'a promise" where
  "resolve v c = (Inr v, c)"

definition reject :: "failure \<Rightarrow> 'a promise" where
  "reject e c = (Inl e, c)"

definition then_do :: "'a promise \<Rightarrow> ('a \<Rightarrow> 'b promise) \<Rightarrow> 'b promise" where
  "then_do p f c = (case p c of (Inl e, c') \<Rightarrow> (Inl e, c') | (Inr v, c') \<Rightarrow> f v c')"

definition catch_do :: "'a promise \<Rightarrow> (failure \<Rightarrow> 'a promise) \<Rightarrow> 'a promise" where
  "catch_do p h c = (case p c of (Inl e, c') \<Rightarrow> h e c' | (Inr v, c') \<Rightarrow> (Inr v, c'))"

definition read_prop :: "jsval \<Rightarrow> string \<Rightarrow> (jsval \<Rightarrow> 'a promise) \<Rightarrow> 'a promise" where
  "read_prop v k f c = (case get_prop v k of Inl e \<Rightarrow> (Inl e, c) | Inr x \<Rightarrow> f x c)"

text \<open>
  Modelled from the spec: \<^verbatim>\<open>utility.error(promise, message)\<close> of \<^verbatim>\<open>lib/utility.js\<close>,
  which is not among the sources. The spec has every failing step abort with its named
  error, carrying a message. The wrapper \<^verbatim>\<open>error(message)\<close> of the client calls it and
  returns nothing itself, so the abort is taken as raising \<^verbatim>\<open>Error(message)\<close>.
\<close>

definition utility_error :: "string \<Rightarrow> failure" where
  "utility_error message = Failure message"

definition error :: "string \<Rightarrow> 'a promise" where
  "error message = reject (utility_error message)"

text \<open>
  Modelled from the spec: the entries \<^verbatim>\<open>utility.copy\<close> of \<^verbatim>\<open>lib/utility.js\<close> (not
  among the sources) copies. The spec speaks of claims, the properties of an object; from
  a value that is no object nothing is taken.
\<close>

fun own_entries :: "jsval \<Rightarrow> (string \<times> jsval) list" where
  "own_entries (JObj ps) = ps"
| "own_entries v = []"

text \<open>
  Modelled from the spec: \<^verbatim>\<open>utility.copy(obj, target)\<close> of \<^verbatim>\<open>lib/utility.js\<close>, which
  is not among the sources. The spec describes its use as merging the claims of \<open>obj\<close>
  over \<open>target\<close>, the values of \<open>obj\<close> taking precedence on a key of both; without a
  target the copy starts from an empty object.
\<close>

definition utility_copy :: "jsval \<Rightarrow> jsval \<Rightarrow> jsval" where
  "utility_copy obj target =
     (case (if js_truthy target then target else JObj []) of
        JObj ts \<Rightarrow> JObj (fold (\<lambda>p acc. set_entry (fst p) (snd p) acc) (own_entries obj) ts)
      | t \<Rightarrow> t)"

subsection \<open>Construction and flow flags\<close>

text \<open>
  The constructor: the settings are copied and completed with defaults. \<open>typeof x ===
  'undefined'\<close> holds of \<^verbatim>\<open>undefined\<close> alone. The discovery path is appended to an
  authority that does not contain it.
\<close>

definition default_authority :: "jsval \<Rightarrow> failure + jsval" where
  "default_authority authority =
     (if js_truthy authority then
        bind_result (indexOf authority (JStr ''.well-known/openid-configuration'')) (\<lambda>i.
          if i < 0 then
            bind_result (get_prop authority ''length'') (\<lambda>len.
              bind_result (get_prop authority (ToString (JNum (js_minus len (JInt 1))))) (\<lambda>l.
                let a1 = (if \<not> strict_eq l (JStr ''/'') then js_concat authority ''/'' else authority)
                in Inr (js_concat a1 ''.well-known/openid-configuration'')))
          else Inr authority)
      else Inr authority)"

definition OidcClient :: "(string \<Rightarrow> jsval) \<Rightarrow> failure + (string \<Rightarrow> jsval)" where
  "OidcClient serverSettings =
     (let s1 = (if \<not> js_truthy (serverSettings ''request_state_key'')
                then serverSettings(''request_state_key'' := JStr ''OidcClient.request_state'')
                else serverSettings);
          s2 = (if s1 ''load_user_profile'' = JUndefined
                then s1(''load_user_profile'' := JBool True) else s1);
          s3 = (if s2 ''filter_protocol_claims'' = JUndefined
                then s2(''filter_protocol_claims'' := JBool True) else s2)
      in bind_result (default_authority (s3 ''authority'')) (\<lambda>a.
           let s4 = s3(''authority'' := a)
           in Inr (if \<not> js_truthy (s4 ''response_type'')
                   then s4(''response_type'' := JStr ''id_token token'') else s4)))"

definition first_or_undefined :: "jsval list \<Rightarrow> jsval" where
  "first_or_undefined xs = (case xs of [] \<Rightarrow> JUndefined | x # _ \<Rightarrow> x)"

definition isOidc :: "(string \<Rightarrow> jsval) \<Rightarrow> failure + bool" where
  "isOidc s =
     (if js_truthy (s ''response_type'') then
        bind_result (js_split_ws (s ''response_type'')) (\<lambda>items.
          let result = filter (\<lambda>item. strict_eq item (JStr ''id_token'')) items
          in Inr (js_truthy (first_or_undefined result)))
      else Inr False)"

definition isOauth :: "(string \<Rightarrow> jsval) \<Rightarrow> failure + bool" where
  "isOauth s =
     (if js_truthy (s ''response_type'') then
        bind_result (js_split_ws (s ''response_type'')) (\<lambda>items.
          let result = filter (\<lambda>item. strict_eq item (JStr ''token'')) items
          in Inr (js_truthy (first_or_undefined result)))
      else Inr False)"

subsection \<open>Metadata, signing key, user profile\<close>

definition loadMetadataAsync :: "env \<Rightarrow> jsval promise" where
  "loadMetadataAsync E c =
     (if js_truthy (settings c ''metadata'') then resolve (settings c ''metadata'') c
      else if \<not> js_truthy (settings c ''authority'') then error ''No authority configured'' c
      else case getJson E (settings c ''authority'') JNull (settings c ''httpSettings'') of
             Inr metadata \<Rightarrow>
               resolve metadata (c\<lparr>settings := (settings c)(''metadata'' := metadata)\<rparr>)
           | Inl msg \<Rightarrow> error (''Failed to load metadata ('' @ msg @ '')'') c)"

definition getKeyAsync :: "jsval \<Rightarrow> jsval promise" where
  "getKeyAsync jwks =
     read_prop jwks ''keys'' (\<lambda>keys.
       if \<not> js_truthy keys then error ''Signing keys empty''
       else read_prop keys ''length'' (\<lambda>n.
         if \<not> js_truthy n then error ''Signing keys empty''
         else read_prop keys ''0'' (\<lambda>key.
           read_prop key ''kty'' (\<lambda>kty.
             if \<not> strict_eq kty (JStr ''RSA'') then error ''Signing key not RSA''
             else read_prop key ''x5c'' (\<lambda>x5c.
               if \<not> js_truthy x5c then error ''RSA keys empty''
               else read_prop x5c ''length'' (\<lambda>m.
                 if \<not> js_truthy m then error ''RSA keys empty''
                 else read_prop x5c ''0'' resolve))))))"

definition loadX509SigningKeyAsync :: "env \<Rightarrow> jsval promise" where
  "loadX509SigningKeyAsync E c =
     (if js_truthy (settings c ''jwks'') then getKeyAsync (settings c ''jwks'') c
      else then_do (loadMetadataAsync E) (\<lambda>metadata.
             read_prop metadata ''jwks_uri'' (\<lambda>jwks_uri c1.
               if \<not> js_truthy jwks_uri then error ''Metadata does not contain jwks_uri'' c1
               else case getJson E jwks_uri JNull (settings c1 ''httpSettings'') of
                      Inr jwks \<Rightarrow> getKeyAsync jwks (c1\<lparr>settings := (settings c1)(''jwks'' := jwks)\<rparr>)
                    | Inl msg \<Rightarrow> error (''Failed to load signing keys ('' @ msg @ '')'') c1)) c)"

definition loadUserProfile :: "env \<Rightarrow> jsval \<Rightarrow> jsval promise" where
  "loadUserProfile E access_token =
     then_do (loadMetadataAsync E) (\<lambda>metadata.
       read_prop metadata ''userinfo_endpoint'' (\<lambda>userinfo_endpoint c.
         if \<not> js_truthy userinfo_endpoint
         then reject (Failure ''Metadata does not contain userinfo_endpoint'') c
         else case getJson E userinfo_endpoint access_token (settings c ''httpSettings'') of
                Inr v \<Rightarrow> resolve v c
              | Inl msg \<Rightarrow> reject (TransportError msg) c))"

text \<open>
  The rejection handler of \<^verbatim>\<open>loadAuthorizationEndpoint\<close> calls its own parameter, an
  error and no function, so every rejection of the chain becomes a \<open>TypeError\<close>. The
  check for a missing authority runs before the chain and is not handled.
\<close>

definition loadAuthorizationEndpoint :: "env \<Rightarrow> jsval promise" where
  "loadAuthorizationEndpoint E c =
     (if js_truthy (settings c ''authorization_endpoint'')
      then resolve (settings c ''authorization_endpoint'') c
      else if \<not> js_truthy (settings c ''authority'')
      then error ''No authorization_endpoint configured'' c
      else catch_do
             (then_do (loadMetadataAsync E) (\<lambda>metadata.
                if \<not> js_truthy metadata
                then error ''Metadata does not contain authorization_endpoint''
                else read_prop metadata ''authorization_endpoint'' (\<lambda>ep.
                       if \<not> js_truthy ep
                       then error ''Metadata does not contain authorization_endpoint''
                       else resolve ep)))
             (\<lambda>err. reject TypeError) c)"


subsection \<open>The authentication request\<close>

text \<open>
  One step of the two \<^verbatim>\<open>forEach\<close> loops over parameter names: the setting is appended
  to the URL when it is truthy.
\<close>

definition append_param :: "(string \<Rightarrow> jsval) \<Rightarrow> string \<Rightarrow> string \<Rightarrow> string" where
  "append_param s url key =
     (let v = s key
      in if js_truthy v then url @ ''&'' @ key @ ''='' @ encodeURIComponent v else url)"

definition required :: "string list" where
  "required = [''client_id'', ''redirect_uri'', ''response_type'', ''scope'']"

definition optional :: "string list" where
  "optional = [''prompt'', ''display'', ''max_age'', ''ui_locales'', ''id_token_hint'',
               ''login_hint'', ''acr_values'', ''response_mode'']"

text \<open>
  The source draws the state and the nonce with \<^verbatim>\<open>utility.rand()\<close> of
  \<^verbatim>\<open>lib/utility.js\<close>, which is not among the sources; the spec has it return a random
  string. The two draws of a request are arguments here: \<open>rand1\<close> is drawn for the
  state and \<open>rand2\<close> for the nonce, when one is drawn.

  A rejection of the endpoint lookup reaches a handler that again calls its own
  parameter; the only rejection that lookup produces is a \<open>TypeError\<close> already, so the
  failure is passed on as it is.
\<close>

definition createTokenRequestAsync :: "env \<Rightarrow> string \<Rightarrow> string \<Rightarrow> jsval promise" where
  "createTokenRequestAsync E rand1 rand2 =
     then_do (loadAuthorizationEndpoint E) (\<lambda>authorization_endpoint c.
       let s = settings c;
           state = JStr rand1;
           url0 = ToString authorization_endpoint @ ''?state='' @ encodeURIComponent state
       in case isOidc s of
            Inl e \<Rightarrow> (Inl e, c)
          | Inr oidc \<Rightarrow>
              let nonce = (if oidc then JStr rand2 else JNull);
                  url1 = (if oidc then url0 @ ''&nonce='' @ encodeURIComponent nonce else url0);
                  url2 = foldl (append_param s) url1 required;
                  url3 = foldl (append_param s) url2 optional
              in case isOidc s of
                   Inl e \<Rightarrow> (Inl e, c)
                 | Inr oidc' \<Rightarrow>
                     (case isOauth s of
                        Inl e \<Rightarrow> (Inl e, c)
                      | Inr oauth \<Rightarrow>
                          let request_state0 =
                                [(''oidc'', JBool oidc'), (''oauth'', JBool oauth), (''state'', state)];
                              request_state =
                                JObj (if js_truthy nonce then set_entry ''nonce'' nonce request_state0
                                      else request_state0);
                              stored = (case JSON_stringify request_state of
                                          Some text \<Rightarrow> JStr text | None \<Rightarrow> JUndefined)
                          in (Inr (JObj [(''request_state'', request_state), (''url'', JStr url3)]),
                              c\<lparr>request_state_store :=
                                  (request_state_store c)(s ''request_state_key'' := stored)\<rparr>)))"

subsection \<open>Token verification\<close>

text \<open>
  \<^verbatim>\<open>Math.round(Date.now() / 1000)\<close>: the nearest second, a half rounded up. The clock
  gives a whole number of milliseconds below \<open>2 ^ 53\<close> in magnitude; for these the
  quotient, rounded to a double, lies on the same side of every half as the exact one,
  so the result is this integer.
\<close>

definition now_seconds :: "env \<Rightarrow> int" where
  "now_seconds E = (Date_now E + 500) div 1000"

text \<open>
  The callback of the user-info request: a value with a truthy \<^verbatim>\<open>statusCode\<close> is an
  HTTP response and not a profile.
\<close>

definition merge_profile :: "jsval \<Rightarrow> jsval \<Rightarrow> jsval promise" where
  "merge_profile id_token_contents profile =
     read_prop profile ''statusCode'' (\<lambda>statusCode.
       if js_truthy statusCode then resolve (utility_copy id_token_contents JUndefined)
       else resolve (utility_copy profile id_token_contents))"

text \<open>The callback that runs once the metadata is there: issuer, audience, times, profile.\<close>

definition validate_claims :: "env \<Rightarrow> jsval \<Rightarrow> jsval \<Rightarrow> jsval \<Rightarrow> jsval promise" where
  "validate_claims E id_token_contents access_token metadata =
     read_prop id_token_contents ''iss'' (\<lambda>iss.
     read_prop metadata ''issuer'' (\<lambda>issuer.
       if \<not> strict_eq iss issuer then error ''Invalid issuer''
       else read_prop id_token_contents ''aud'' (\<lambda>aud c.
         if \<not> strict_eq aud (settings c ''client_id'') then error ''Invalid audience'' c
         else
           (let now = now_seconds E
            in read_prop id_token_contents ''iat'' (\<lambda>iat.
                 let diff = js_minus (JInt now) iat
                 in if num_gt diff (5 * 60) then error ''Token issued too long ago''
                    else read_prop id_token_contents ''exp'' (\<lambda>exp c'.
                      if js_lt_num exp now then error ''Token expired'' c'
                      else if js_truthy access_token \<and> js_truthy (settings c' ''load_user_profile'')
                      then then_do (loadUserProfile E access_token)
                                   (merge_profile id_token_contents) c'
                      else resolve id_token_contents c'))) c)))"

definition validateIdTokenAsync :: "env \<Rightarrow> jsval \<Rightarrow> jsval \<Rightarrow> jsval \<Rightarrow> jsval promise" where
  "validateIdTokenAsync E id_token nonce access_token =
     then_do (loadX509SigningKeyAsync E) (\<lambda>cert.
       case verifyJWSByPemX509Cert E id_token cert of
         None \<Rightarrow> error ''JWT failed to validate''
       | Some payloadS \<Rightarrow>
           (case JSON_parse (JStr payloadS) of
              Inl e \<Rightarrow> reject e
            | Inr id_token_contents \<Rightarrow>
                read_prop id_token_contents ''nonce'' (\<lambda>n.
                  if \<not> strict_eq nonce n then error ''Invalid nonce''
                  else then_do (loadMetadataAsync E)
                               (validate_claims E id_token_contents access_token))))"

definition validateAccessTokenAsync :: "env \<Rightarrow> jsval \<Rightarrow> jsval \<Rightarrow> unit promise" where
  "validateAccessTokenAsync E id_token_contents access_token =
     read_prop id_token_contents ''at_hash'' (\<lambda>at_hash.
       if \<not> js_truthy at_hash then error ''No at_hash in id_token''
       else
         (let hash = sha256 E access_token;
              left = take (length hash div 2) hash;
              left_b64u = hextob64u E left
          in if \<not> strict_eq (JStr left_b64u) at_hash then error ''at_hash failed to validate''
             else resolve ()))"

definition validateIdTokenAndAccessTokenAsync ::
  "env \<Rightarrow> jsval \<Rightarrow> jsval \<Rightarrow> jsval \<Rightarrow> jsval promise" where
  "validateIdTokenAndAccessTokenAsync E id_token nonce access_token =
     then_do (validateIdTokenAsync E id_token nonce access_token) (\<lambda>id_token_contents.
       then_do (validateAccessTokenAsync E id_token_contents access_token) (\<lambda>u.
         resolve id_token_contents))"

subsection \<open>The response processor\<close>

text \<open>
  The request state of a call: the argument when it is truthy, else the entry of the
  store, which is cleared as it is read.
\<close>

definition load_request_state :: "jsval \<Rightarrow> jsval promise" where
  "load_request_state requestState c =
     (if \<not> js_truthy requestState
      then (let key = settings c ''request_state_key''
            in (Inr (request_state_store c key),
                c\<lparr>request_state_store := (request_state_store c)(key := JUndefined)\<rparr>))
      else (Inr requestState, c))"

definition oidc_checks :: "jsval \<Rightarrow> jsval \<Rightarrow> unit promise" where
  "oidc_checks request_state result =
     read_prop request_state ''oidc'' (\<lambda>oidc.
       if js_truthy oidc then
         read_prop result ''id_token'' (\<lambda>id_token.
           if \<not> js_truthy id_token then error ''No identity token''
           else read_prop request_state ''nonce'' (\<lambda>nonce.
                  if \<not> js_truthy nonce then error ''No nonce loaded'' else resolve ()))
       else resolve ())"

definition oauth_checks :: "jsval \<Rightarrow> jsval \<Rightarrow> unit promise" where
  "oauth_checks request_state result =
     read_prop request_state ''oauth'' (\<lambda>oauth.
       if js_truthy oauth then
         read_prop result ''access_token'' (\<lambda>access_token.
           if \<not> js_truthy access_token then error ''No access token''
           else read_prop result ''token_type'' (\<lambda>token_type.
                  if \<not> js_truthy token_type then error ''Invalid token type''
                  else case toLowerCase token_type of
                         Inl e \<Rightarrow> reject e
                       | Inr lower \<Rightarrow>
                           if \<not> strict_eq lower (JStr ''bearer'') then error ''Invalid token type''
                           else read_prop result ''expires_in'' (\<lambda>expires_in.
                                  if \<not> js_truthy expires_in then error ''No token expiration''
                                  else resolve ())))
       else resolve ())"

text \<open>The verification the flow flags select; without the identity flow there is none.\<close>

definition localPromise :: "env \<Rightarrow> jsval \<Rightarrow> jsval \<Rightarrow> jsval promise" where
  "localPromise E request_state result =
     read_prop request_state ''oidc'' (\<lambda>oidc.
     read_prop request_state ''oauth'' (\<lambda>oauth.
       if js_truthy oidc \<and> js_truthy oauth then
         read_prop result ''id_token'' (\<lambda>id_token.
         read_prop request_state ''nonce'' (\<lambda>nonce.
         read_prop result ''access_token'' (\<lambda>access_token.
           validateIdTokenAndAccessTokenAsync E id_token nonce access_token)))
       else if js_truthy oidc then
         read_prop result ''id_token'' (\<lambda>id_token.
         read_prop request_state ''nonce'' (\<lambda>nonce.
           validateIdTokenAsync E id_token nonce JUndefined))
       else resolve JUndefined))"

definition remove :: "string list" where
  "remove = [''nonce'', ''at_hash'', ''iat'', ''nbf'', ''exp'', ''aud'', ''iss'', ''idp'']"

text \<open>The last callback: the protocol claims are deleted, and the session is put together.\<close>

definition build_session :: "jsval \<Rightarrow> jsval \<Rightarrow> jsval promise" where
  "build_session result profile c =
     (let profile' = (if js_truthy profile \<and> js_truthy (settings c ''filter_protocol_claims'')
                      then foldl delete_prop profile remove else profile)
      in read_prop result ''id_token'' (\<lambda>id_token.
         read_prop result ''access_token'' (\<lambda>access_token.
         read_prop result ''expires_in'' (\<lambda>expires_in.
         read_prop result ''scope'' (\<lambda>scope.
         read_prop result ''session_state'' (\<lambda>session_state.
           resolve (JObj [(''profile'', profile'), (''id_token'', id_token),
                          (''access_token'', access_token), (''expires_in'', expires_in),
                          (''scope'', scope), (''session_state'', session_state)])))))) c)"

text \<open>Everything after the request state is loaded: lines 368 to 441 of the source.\<close>

definition process_with_state :: "env \<Rightarrow> jsval \<Rightarrow> jsval \<Rightarrow> jsval promise" where
  "process_with_state E result request_state_text =
     (if \<not> js_truthy request_state_text then error ''No request state loaded''
      else case JSON_parse request_state_text of
             Inl e \<Rightarrow> reject e
           | Inr request_state \<Rightarrow>
               if \<not> js_truthy request_state then error ''No request state loaded''
               else read_prop request_state ''state'' (\<lambda>state.
                 if \<not> js_truthy state then error ''No state loaded''
                 else if \<not> js_truthy result then error ''No OIDC response''
                 else read_prop result ''error'' (\<lambda>err.
                   if js_truthy err then error (ToString err)
                   else read_prop result ''state'' (\<lambda>result_state.
                     if \<not> strict_eq result_state state then error ''Invalid state''
                     else then_do (oidc_checks request_state result) (\<lambda>u.
                          then_do (oauth_checks request_state result) (\<lambda>u'.
                          then_do (localPromise E request_state result)
                                  (build_session result)))))))"

definition processResponseAsync :: "env \<Rightarrow> jsval \<Rightarrow> jsval \<Rightarrow> jsval promise" where
  "processResponseAsync E result requestState =
     then_do (load_request_state requestState) (process_with_state E result)"

section \<open>Definitions for the statements\<close>

subsection \<open>What a call leaves untouched\<close>

text \<open>
  A call \<open>preserves\<close> the state when it leaves the request-state store as it is and
  changes no setting other than the two caches, \<^verbatim>\<open>metadata\<close> and \<^verbatim>\<open>jwks\<close>.
\<close>

definition preserves :: "'a promise \<Rightarrow> bool" where
  "preserves p =
     (\<forall>c. request_state_store (snd (p c)) = request_state_store c
        \<and> (\<forall>k. k \<noteq> ''metadata'' \<and> k \<noteq> ''jwks'' \<longrightarrow> settings (snd (p c)) k = settings c k))"

subsection \<open>The authorization URL, in the words of the specification\<close>

text \<open>
  The response type includes a token when the token is one of the pieces between its
  white space; a response type that is not set includes none.
\<close>

definition includes_token :: "jsval \<Rightarrow> string \<Rightarrow> bool" where
  "includes_token response_type t =
     (case response_type of JStr rt \<Rightarrow> t \<in> set (split_ws rt) | _ \<Rightarrow> False)"

definition query_parameter :: "(string \<Rightarrow> jsval) \<Rightarrow> string \<Rightarrow> string" where
  "query_parameter s key = ''&'' @ key @ ''='' @ encodeURIComponent (s key)"

text \<open>
  The URL as the specification words it: the endpoint, the state, the nonce when the
  response type includes \<^verbatim>\<open>id_token\<close>, then the twelve named parameters in their
  order, each present when its setting is truthy (non-empty), every value percent-encoded.
\<close>

definition spec_authorization_url ::
  "string \<Rightarrow> string \<Rightarrow> string \<Rightarrow> (string \<Rightarrow> jsval) \<Rightarrow> string" where
  "spec_authorization_url endpoint state nonce s =
     endpoint @ ''?state='' @ encodeURIComponent (JStr state)
     @ (if includes_token (s ''response_type'') ''id_token''
        then ''&nonce='' @ encodeURIComponent (JStr nonce) else [])
     @ concat (map (query_parameter s)
         (filter (\<lambda>key. js_truthy (s key))
            [''client_id'', ''redirect_uri'', ''response_type'', ''scope'',
             ''prompt'', ''display'', ''max_age'', ''ui_locales'', ''id_token_hint'',
             ''login_hint'', ''acr_values'', ''response_mode'']))"

text \<open>A percent-encoded text holds unreserved characters and \<^verbatim>\<open>%XX\<close> escapes only.\<close>

definition percent_encoded :: "string \<Rightarrow> bool" where
  "percent_encoded s = list_all (\<lambda>ch. is_uri_unreserved ch \<or> ch = CHR ''%'') s"

subsection \<open>The key set a resolution works on\<close>

text \<open>
  \<open>key_set_in_use E c jwks c'\<close>: resolving the signing key in state \<open>c\<close> selects from
  the key set \<open>jwks\<close> in state \<open>c'\<close>. It is the cached key set, or else the one fetched
  from the \<^verbatim>\<open>jwks_uri\<close> of the metadata, which is cached as it arrives.
\<close>

definition key_set_in_use :: "env \<Rightarrow> client \<Rightarrow> jsval \<Rightarrow> client \<Rightarrow> bool" where
  "key_set_in_use E c jwks c' =
     (if js_truthy (settings c ''jwks'') then jwks = settings c ''jwks'' \<and> c' = c
      else case loadMetadataAsync E c of
             (Inr metadata, c1) \<Rightarrow>
               (case get_prop metadata ''jwks_uri'' of
                  Inr uri \<Rightarrow>
                    js_truthy uri
                    \<and> getJson E uri JNull (settings c1 ''httpSettings'') = Inr jwks
                    \<and> c' = c1\<lparr>settings := (settings c1)(''jwks'' := jwks)\<rparr>
                | Inl e \<Rightarrow> False)
           | (Inl e, c1) \<Rightarrow> False)"

subsection \<open>Example inputs\<close>

text \<open>
  A provider, a configured client and callbacks, used where a statement is run on a
  concrete input. The digest and its base64url form are those of SHA-256 on the access
  tokens \<^verbatim>\<open>abc\<close> and \<^verbatim>\<open>abd\<close>. The clock stands at 1700000100 seconds.
\<close>

definition idp_metadata :: jsval where
  "idp_metadata = JObj [(''issuer'', JStr ''https://idp.example''),
     (''authorization_endpoint'', JStr ''https://idp.example/authorize''),
     (''jwks_uri'', JStr ''https://idp.example/jwks''),
     (''userinfo_endpoint'', JStr ''https://idp.example/userinfo'')]"

definition rsa_key :: jsval where
  "rsa_key = JObj [(''kty'', JStr ''RSA''), (''x5c'', JArr [JStr ''MIIC''])]"

definition ec_key :: jsval where
  "ec_key = JObj [(''kty'', JStr ''EC''), (''crv'', JStr ''P-256'')]"

definition idp_jwks :: jsval where
  "idp_jwks = JObj [(''keys'', JArr [rsa_key])]"

definition mixed_jwks :: jsval where
  "mixed_jwks = JObj [(''keys'', JArr [ec_key, rsa_key])]"

definition unchained_key :: jsval where
  "unchained_key = JObj [(''kty'', JStr ''RSA''), (''use'', JStr ''sig'')]"

definition unchained_jwks :: jsval where
  "unchained_jwks = JObj [(''keys'', JArr [unchained_key, rsa_key])]"

text \<open>
  Issued 300 seconds before the clock's time and expiring at it; the payload carries each
  of the eight protocol claims.
\<close>

definition idp_payload :: string where
  \<open>idp_payload = ''{"iss":"https://idp.example","aud":"app","iat":1699999800,"nbf":1699999800,"exp":1700000100,"nonce":"n-1","at_hash":"ungWv48Bz-pBQUDeXa4iIw","idp":"idsrv","sub":"alice"}''\<close>

definition idp_claims :: "(string \<times> jsval) list" where
  "idp_claims = [(''iss'', JStr ''https://idp.example''), (''aud'', JStr ''app''),
     (''iat'', JNum (Fin 1699999800)), (''nbf'', JNum (Fin 1699999800)),
     (''exp'', JNum (Fin 1700000100)), (''nonce'', JStr ''n-1''),
     (''at_hash'', JStr ''ungWv48Bz-pBQUDeXa4iIw''), (''idp'', JStr ''idsrv''),
     (''sub'', JStr ''alice'')]"

text \<open>Issued 301 seconds before the clock's time and expired one second before it.\<close>

definition stale_payload :: string where
  \<open>stale_payload = ''{"iss":"https://idp.example","aud":"app","iat":1699999799,"exp":1700000099,"nonce":"n-1","sub":"alice"}''\<close>

definition stale_claims :: "(string \<times> jsval) list" where
  "stale_claims = [(''iss'', JStr ''https://idp.example''), (''aud'', JStr ''app''),
     (''iat'', JNum (Fin 1699999799)), (''exp'', JNum (Fin 1700000099)), (''nonce'', JStr ''n-1''),
     (''sub'', JStr ''alice'')]"

text \<open>Issued 300 seconds before the clock's time and expired one second before it.\<close>

definition expired_payload :: string where
  \<open>expired_payload = ''{"iss":"https://idp.example","aud":"app","iat":1699999800,"exp":1700000099,"nonce":"n-1","sub":"alice"}''\<close>

definition expired_claims :: "(string \<times> jsval) list" where
  "expired_claims = [(''iss'', JStr ''https://idp.example''), (''aud'', JStr ''app''),
     (''iat'', JNum (Fin 1699999800)), (''exp'', JNum (Fin 1700000099)), (''nonce'', JStr ''n-1''),
     (''sub'', JStr ''alice'')]"

text \<open>
  Issued 300 seconds and a half before the clock's time, with the expiry written as a
  string.
\<close>

definition early_payload :: string where
  \<open>early_payload = ''{"iss":"https://idp.example","aud":"app","iat":1699999799.5,"exp":"1700000100","nonce":"n-1","sub":"alice"}''\<close>

definition early_claims :: "(string \<times> jsval) list" where
  "early_claims = [(''iss'', JStr ''https://idp.example''), (''aud'', JStr ''app''),
     (''iat'', JNum (Fin 1699999799.5)), (''exp'', JStr ''1700000100''), (''nonce'', JStr ''n-1''),
     (''sub'', JStr ''alice'')]"

definition userinfo :: "(string \<times> jsval) list" where
  "userinfo = [(''sub'', JStr ''alice@idp''), (''name'', JStr ''Alice'')]"

definition http_response :: jsval where
  "http_response = JObj [(''statusCode'', JNum (Fin 401)), (''body'', JStr ''Unauthorized'')]"

definition idp_env :: env where
  "idp_env = \<lparr>
     getJson = (\<lambda>url token http.
       if url = JStr ''https://idp.example/userinfo'' \<and> token = JStr ''abc''
       then Inr (JObj userinfo)
       else if url = JStr ''https://idp.example/userinfo'' then Inr http_response
       else if url = JStr ''https://idp.example/jwks'' then Inr idp_jwks
       else Inl ''Not Found''),
     verifyJWSByPemX509Cert = (\<lambda>token cert.
       if token = JStr ''header.payload.signature'' \<and> cert = JStr ''MIIC'' then Some idp_payload
       else if token = JStr ''header.stale.signature'' \<and> cert = JStr ''MIIC'' then Some stale_payload
       else if token = JStr ''header.expired.signature'' \<and> cert = JStr ''MIIC'' then Some expired_payload
       else if token = JStr ''header.early.signature'' \<and> cert = JStr ''MIIC'' then Some early_payload
       else None),
     sha256 = (\<lambda>t. if t = JStr ''abc''
                    then ''ba7816bf8f01cfea414140de5dae2223b00361a396177a9cb410ff61f20015ad''
                    else ''a52d159f262b2c6ddb724a61840befc36eb30c88877a4030b65cbe86298449c9''),
     hextob64u = (\<lambda>h. if h = ''ba7816bf8f01cfea414140de5dae2223'' then ''ungWv48Bz-pBQUDeXa4iIw''
                       else ''pS0VnyYrLG3bckphhAvvww''),
     Date_now = 1700000100000 \<rparr>"

definition stored_request_state :: string where
  \<open>stored_request_state = ''{"oidc":true,"oauth":false,"state":"s-1","nonce":"n-1"}''\<close>

definition parsed_request_state :: "(string \<times> jsval) list" where
  "parsed_request_state = [(''oidc'', JBool True), (''oauth'', JBool False),
     (''state'', JStr ''s-1''), (''nonce'', JStr ''n-1'')]"

definition app_settings :: "string \<Rightarrow> jsval" where
  "app_settings = (\<lambda>k. JUndefined)
     (''request_state_key'' := JStr ''OidcClient.request_state'',
      ''load_user_profile'' := JBool True,
      ''filter_protocol_claims'' := JBool True,
      ''response_type'' := JStr ''id_token token'',
      ''authorization_endpoint'' := JStr ''https://idp.example/authorize'',
      ''client_id'' := JStr ''app'',
      ''redirect_uri'' := JStr ''https://app.example/cb'',
      ''scope'' := JStr ''openid profile'',
      ''max_age'' := JNum (Fin 3600),
      ''metadata'' := idp_metadata,
      ''jwks'' := idp_jwks)"

text \<open>
  The client after a request was built: the request state is in the store. In
  \<open>corrupt_client\<close> the stored entry is no JSON text, in \<open>fresh_client\<close> the store is
  empty, \<open>mixed_client\<close> has cached a key set whose first key is not an RSA key, and
  \<open>unchained_client\<close> one whose first key is an RSA key without a certificate chain.
\<close>

definition app_client :: client where
  "app_client =
     \<lparr>settings = app_settings,
      request_state_store =
        (\<lambda>k. JUndefined)(JStr ''OidcClient.request_state'' := JStr stored_request_state)\<rparr>"

definition corrupt_client :: client where
  "corrupt_client =
     \<lparr>settings = app_settings,
      request_state_store =
        (\<lambda>k. JUndefined)(JStr ''OidcClient.request_state'' := JStr ''state=s-1'')\<rparr>"

definition fresh_client :: client where
  "fresh_client = \<lparr>settings = app_settings, request_state_store = (\<lambda>k. JUndefined)\<rparr>"

definition mixed_client :: client where
  "mixed_client =
     \<lparr>settings = app_settings(''jwks'' := mixed_jwks), request_state_store = (\<lambda>k. JUndefined)\<rparr>"

definition unchained_client :: client where
  "unchained_client =
     \<lparr>settings = app_settings(''jwks'' := unchained_jwks), request_state_store = (\<lambda>k. JUndefined)\<rparr>"

definition callback :: jsval where
  "callback = JObj [(''state'', JStr ''s-1''), (''id_token'', JStr ''header.payload.signature'')]"

definition forged_callback :: jsval where
  "forged_callback =
     JObj [(''state'', JStr ''s-2''), (''id_token'', JStr ''header.payload.signature'')]"

definition app_session :: jsval where
  "app_session =
     JObj [(''profile'', JObj [(''sub'', JStr ''alice'')]),
           (''id_token'', JStr ''header.payload.signature''),
           (''access_token'', JUndefined), (''expires_in'', JUndefined),
           (''scope'', JUndefined), (''session_state'', JUndefined)]"

definition minimal_settings :: "string \<Rightarrow> jsval" where
  "minimal_settings = (\<lambda>k. JUndefined)(''client_id'' := JStr ''app'')"

definition code_flow_settings :: "string \<Rightarrow> jsval" where
  "code_flow_settings = (\<lambda>k. JUndefined)(''response_type'' := JStr ''code  id_token'')"

definition id_token2_settings :: "string \<Rightarrow> jsval" where
  "id_token2_settings = (\<lambda>k. JUndefined)(''response_type'' := JStr ''id_token2'')"


section \<open>Lemmas\<close>

subsection \<open>Integers as doubles\<close>

text \<open>
  An integer of magnitude up to \<open>2 ^ 53\<close> is a double, so rounding leaves it as it is,
  and on such integers the difference and the comparisons of the language are those of
  arithmetic.
\<close>

lemma floor_log2_bounds:
  "1 \<le> n \<Longrightarrow> 0 \<le> floor_log2 n \<and> 2 ^ nat (floor_log2 n) \<le> n \<and> n < 2 ^ nat (floor_log2 n + 1)"
proof (induction n rule: floor_log2.induct)
  case (1 n)
  show ?case
  proof (cases "n < 2")
    case True
    then show ?thesis using 1(2) by (simp add: floor_log2.simps)
  next
    case False
    then have h: "1 \<le> n div 2" by simp
    note ih = 1(1) [OF False h]
    have f: "floor_log2 n = 1 + floor_log2 (n div 2)"
      using False by (simp add: floor_log2.simps)
    have e: "nat (1 + floor_log2 (n div 2)) = Suc (nat (floor_log2 (n div 2)))"
      using ih by arith
    have e2: "nat (1 + floor_log2 (n div 2) + 1) = Suc (Suc (nat (floor_log2 (n div 2))))"
      using ih by arith
    have e3: "nat (floor_log2 (n div 2) + 1) = Suc (nat (floor_log2 (n div 2)))"
      using ih by arith
    show ?thesis
      unfolding f e e2 using ih unfolding e3 by (auto simp: algebra_simps)
  qed
qed

lemma double_of_ratio_int:
  assumes "0 < n" and "n \<le> 2 ^ 53"
  shows "double_of_ratio n 1 = Fin (of_int n)"
proof -
  define k where "k = floor_log2 n"
  have b: "0 \<le> k" "2 ^ nat k \<le> n" "n < 2 ^ nat (k + 1)"
    using floor_log2_bounds [of n] assms(1) by (simp_all add: k_def)
  have l0: "floor_log2 1 = 0" by (simp add: floor_log2.simps)
  have be: "binary_exponent n 1 = k"
    using b by (simp add: binary_exponent_def l0 k_def [symmetric] Let_def)
  have k53: "k \<le> 53"
  proof (rule ccontr)
    assume "\<not> k \<le> 53"
    then have "54 \<le> nat k" by simp
    then have "(2::int) ^ 54 \<le> 2 ^ nat k" by (rule power_increasing) simp
    then show False using b(2) assms(2) by simp
  qed
  have rh: "round_half_even m 1 = m" for m
    by (simp add: round_half_even_def)
  show ?thesis
  proof (cases "k < 52")
    case True
    then show ?thesis
      using b(1) assms(1) by (simp add: double_of_ratio_def be rh Let_def)
  next
    case False
    then consider "k = 52" | "k = 53" using k53 by linarith
    then show ?thesis
    proof cases
      case 1
      have "n < 2 ^ 1024"
      proof -
        have "n \<le> 2 ^ 53" by (rule assms(2))
        also have "\<dots> < (2::int) ^ 1024" by (rule power_strict_increasing) simp_all
        finally show ?thesis .
      qed
      then show ?thesis
        using assms(1) 1 by (simp add: double_of_ratio_def be rh Let_def)
    next
      case 2
      then have "2 ^ 53 \<le> n" using b(2) by simp
      then have n: "n = 2 ^ 53" using assms(2) by simp
      have "double_of_ratio 9007199254740992 1 = Fin 9007199254740992"
        by code_simp
      then show ?thesis
        unfolding n by simp
    qed
  qed
qed

lemma to_double_int:
  assumes "\<bar>n\<bar> \<le> 2 ^ 53"
  shows "to_double (of_int n) = Fin (of_int n)"
proof -
  consider "n = 0" | "0 < n" | "n < 0" by linarith
  then show ?thesis
  proof cases
    case 1
    then show ?thesis by (simp add: to_double_def double_of_ratio_def)
  next
    case 2
    then show ?thesis using assms double_of_ratio_int [of n] by (simp add: to_double_def)
  next
    case 3
    then show ?thesis using assms double_of_ratio_int [of "- n"] by (simp add: to_double_def)
  qed
qed

lemma js_minus_integers:
  "\<bar>a - b\<bar> \<le> 2 ^ 53 \<Longrightarrow> js_minus (JInt a) (JInt b) = Fin (of_int (a - b))"
  using to_double_int [of "a - b"] by (simp add: js_minus_def)

lemma num_gt_integer: "num_gt (Fin (of_int a)) b \<longleftrightarrow> a > b"
  by (simp add: num_gt_def)

lemma js_lt_num_integer: "js_lt_num (JInt a) b \<longleftrightarrow> a < b"
  by (simp add: js_lt_num_def)

subsection \<open>Flow flags\<close>

lemma split_ws_default: "split_ws ''id_token token'' = [''id_token'', ''token'']"
  by code_simp

lemma split_ws_id_token2: "split_ws ''id_token2'' = [''id_token2'']"
  by code_simp

lemma first_filter_truthy:
  "t \<noteq> [] \<Longrightarrow>
   js_truthy (first_or_undefined (filter (\<lambda>item. strict_eq item (JStr t)) (map JStr xs)))
     = (t \<in> set xs)"
  by (induction xs) (auto simp: first_or_undefined_def)

lemma isOidc_string:
  "s ''response_type'' = JStr rt \<Longrightarrow> rt \<noteq> [] \<Longrightarrow> isOidc s = Inr (''id_token'' \<in> set (split_ws rt))"
  by (simp add: isOidc_def js_split_ws_def bind_result_def first_filter_truthy)

lemma isOauth_string:
  "s ''response_type'' = JStr rt \<Longrightarrow> rt \<noteq> [] \<Longrightarrow> isOauth s = Inr (''token'' \<in> set (split_ws rt))"
  by (simp add: isOauth_def js_split_ws_def bind_result_def first_filter_truthy)

lemma OidcClient_response_type:
  assumes "OidcClient cfg = Inr s"
  shows "s ''response_type'' =
           (if js_truthy (cfg ''response_type'') then cfg ''response_type'' else JStr ''id_token token'')"
  using assms unfolding OidcClient_def Let_def bind_result_def
  by (auto split: sum.splits if_splits)

subsection \<open>Request parameters\<close>

lemma foldl_append_param:
  "foldl (append_param s) url ks =
     url @ concat (map (\<lambda>k. ''&'' @ k @ ''='' @ encodeURIComponent (s k)) (filter (\<lambda>k. js_truthy (s k)) ks))"
  by (induction ks arbitrary: url) (simp_all add: append_param_def)

subsection \<open>What the calls preserve\<close>

lemma preservesD:
  assumes "preserves p" and "p c = (r, c')"
  shows "request_state_store c' = request_state_store c"
    and "k \<noteq> ''metadata'' \<Longrightarrow> k \<noteq> ''jwks'' \<Longrightarrow> settings c' k = settings c k"
  using assms unfolding preserves_def by (metis snd_conv)+

lemma preserves_resolve [intro!, simp]: "preserves (resolve v)"
  by (simp add: preserves_def resolve_def)

lemma preserves_reject [intro!, simp]: "preserves (reject e)"
  by (simp add: preserves_def reject_def)

lemma preserves_error [intro!, simp]: "preserves (error m)"
  by (simp add: error_def)

lemma preserves_then_do [intro!]:
  assumes "preserves p" and "\<And>v. preserves (f v)"
  shows "preserves (then_do p f)"
  unfolding preserves_def
proof (intro allI)
  fix c
  obtain r c1 where p: "p c = (r, c1)" by (cases "p c")
  show "request_state_store (snd (then_do p f c)) = request_state_store c
        \<and> (\<forall>k. k \<noteq> ''metadata'' \<and> k \<noteq> ''jwks'' \<longrightarrow> settings (snd (then_do p f c)) k = settings c k)"
  proof (cases r)
    case (Inl e)
    then show ?thesis using p preservesD [OF assms(1) p] by (simp add: then_do_def)
  next
    case (Inr v)
    obtain r2 c2 where f: "f v c1 = (r2, c2)" by (cases "f v c1")
    show ?thesis
      using Inr p f preservesD [OF assms(1) p] preservesD [OF assms(2) f]
      by (simp add: then_do_def)
  qed
qed

lemma preserves_catch_do [intro!]:
  assumes "preserves p" and "\<And>e. preserves (h e)"
  shows "preserves (catch_do p h)"
  unfolding preserves_def
proof (intro allI)
  fix c
  obtain r c1 where p: "p c = (r, c1)" by (cases "p c")
  show "request_state_store (snd (catch_do p h c)) = request_state_store c
        \<and> (\<forall>k. k \<noteq> ''metadata'' \<and> k \<noteq> ''jwks'' \<longrightarrow> settings (snd (catch_do p h c)) k = settings c k)"
  proof (cases r)
    case (Inr v)
    then show ?thesis using p preservesD [OF assms(1) p] by (simp add: catch_do_def)
  next
    case (Inl e)
    obtain r2 c2 where f: "h e c1 = (r2, c2)" by (cases "h e c1")
    show ?thesis
      using Inl p f preservesD [OF assms(1) p] preservesD [OF assms(2) f]
      by (simp add: catch_do_def)
  qed
qed

lemma preserves_read_prop [intro!]:
  assumes "\<And>x. preserves (f x)"
  shows "preserves (read_prop v k f)"
  using assms unfolding preserves_def read_prop_def by (auto split: sum.splits)

lemma preserves_if [intro!]:
  "(b \<Longrightarrow> preserves p) \<Longrightarrow> (\<not> b \<Longrightarrow> preserves q) \<Longrightarrow> preserves (if b then p else q)"
  by simp

lemma preserves_fun:
  assumes "\<And>c. preserves (\<lambda>c'. p c c')"
  shows "preserves (\<lambda>c. p c c)"
  using assms unfolding preserves_def by simp

lemma preserves_loadMetadataAsync [intro!, simp]: "preserves (loadMetadataAsync E)"
  unfolding preserves_def loadMetadataAsync_def
  by (auto simp: resolve_def error_def reject_def split: sum.splits)

lemma preserves_getKeyAsync [intro!, simp]: "preserves (getKeyAsync jwks)"
  unfolding getKeyAsync_def by (intro preserves_read_prop preserves_if preserves_error preserves_resolve)

lemma preserves_loadX509SigningKeyAsync [intro!, simp]: "preserves (loadX509SigningKeyAsync E)"
proof -
  have a: "preserves (\<lambda>c1. case getJson E u JNull (settings c1 ''httpSettings'') of
                 Inr jwks \<Rightarrow> getKeyAsync jwks (c1\<lparr>settings := (settings c1)(''jwks'' := jwks)\<rparr>)
               | Inl msg \<Rightarrow> error (''Failed to load signing keys ('' @ msg @ '')'') c1)" for u
    unfolding preserves_def
  proof (intro allI)
    fix c
    show "request_state_store (snd (case getJson E u JNull (settings c ''httpSettings'') of
                 Inr jwks \<Rightarrow> getKeyAsync jwks (c\<lparr>settings := (settings c)(''jwks'' := jwks)\<rparr>)
               | Inl msg \<Rightarrow> error (''Failed to load signing keys ('' @ msg @ '')'') c)) = request_state_store c
       \<and> (\<forall>k. k \<noteq> ''metadata'' \<and> k \<noteq> ''jwks'' \<longrightarrow> settings (snd (case getJson E u JNull (settings c ''httpSettings'') of
                 Inr jwks \<Rightarrow> getKeyAsync jwks (c\<lparr>settings := (settings c)(''jwks'' := jwks)\<rparr>)
               | Inl msg \<Rightarrow> error (''Failed to load signing keys ('' @ msg @ '')'') c)) k = settings c k)"
    proof (cases "getJson E u JNull (settings c ''httpSettings'')")
      case (Inl msg)
      then show ?thesis by (simp add: error_def reject_def)
    next
      case (Inr jwks)
      obtain r c2 where g: "getKeyAsync jwks (c\<lparr>settings := (settings c)(''jwks'' := jwks)\<rparr>) = (r, c2)"
        by (cases "getKeyAsync jwks (c\<lparr>settings := (settings c)(''jwks'' := jwks)\<rparr>)")
      show ?thesis using Inr g preservesD [OF preserves_getKeyAsync g] by simp
    qed
  qed
  have b: "preserves (\<lambda>c1. if \<not> js_truthy u then error ''Metadata does not contain jwks_uri'' c1
               else case getJson E u JNull (settings c1 ''httpSettings'') of
                      Inr jwks \<Rightarrow> getKeyAsync jwks (c1\<lparr>settings := (settings c1)(''jwks'' := jwks)\<rparr>)
                    | Inl msg \<Rightarrow> error (''Failed to load signing keys ('' @ msg @ '')'') c1)" for u
    using a [of u] by (cases "js_truthy u") (simp_all add: preserves_def error_def reject_def)
  have c: "preserves (then_do (loadMetadataAsync E) (\<lambda>metadata.
             read_prop metadata ''jwks_uri'' (\<lambda>jwks_uri c1.
               if \<not> js_truthy jwks_uri then error ''Metadata does not contain jwks_uri'' c1
               else case getJson E jwks_uri JNull (settings c1 ''httpSettings'') of
                      Inr jwks \<Rightarrow> getKeyAsync jwks (c1\<lparr>settings := (settings c1)(''jwks'' := jwks)\<rparr>)
                    | Inl msg \<Rightarrow> error (''Failed to load signing keys ('' @ msg @ '')'') c1)))"
    by (intro preserves_then_do preserves_read_prop preserves_loadMetadataAsync b)
  show ?thesis
    unfolding preserves_def
  proof (intro allI)
    fix c0
    show "request_state_store (snd (loadX509SigningKeyAsync E c0)) = request_state_store c0 \<and>
        (\<forall>k. k \<noteq> ''metadata'' \<and> k \<noteq> ''jwks'' \<longrightarrow> settings (snd (loadX509SigningKeyAsync E c0)) k = settings c0 k)"
      using c preserves_getKeyAsync [of "settings c0 ''jwks''"]
      unfolding preserves_def loadX509SigningKeyAsync_def by simp
  qed
qed

lemma preserves_if_state:
  "preserves p \<Longrightarrow> preserves q \<Longrightarrow> preserves (\<lambda>c. if b c then p c else q c)"
  unfolding preserves_def by simp

lemma preserves_case_state:
  "(\<And>v. preserves (f v)) \<Longrightarrow> (\<And>m. preserves (g m)) \<Longrightarrow>
   preserves (\<lambda>c. case x c of Inr v \<Rightarrow> f v c | Inl m \<Rightarrow> g m c)"
  unfolding preserves_def by (simp split: sum.splits)

lemma preserves_loadUserProfile [intro!, simp]: "preserves (loadUserProfile E access_token)"
  unfolding loadUserProfile_def
  by (intro preserves_then_do preserves_read_prop preserves_loadMetadataAsync
        preserves_if_state preserves_case_state preserves_resolve preserves_reject)

lemma preserves_merge_profile [intro!, simp]: "preserves (merge_profile contents profile)"
  unfolding merge_profile_def by (intro preserves_read_prop preserves_if preserves_resolve)

lemma preserves_validate_claims [intro!, simp]:
  "preserves (validate_claims E contents access_token metadata)"
  unfolding validate_claims_def Let_def
  by (intro preserves_read_prop preserves_if preserves_error preserves_if_state
        preserves_then_do preserves_loadUserProfile preserves_merge_profile preserves_resolve)

lemma preserves_validateIdTokenAsync [intro!, simp]:
  "preserves (validateIdTokenAsync E id_token nonce access_token)"
proof -
  have "preserves (case v of None \<Rightarrow> error ''JWT failed to validate''
       | Some payloadS \<Rightarrow>
           (case JSON_parse (JStr payloadS) of
              Inl e \<Rightarrow> reject e
            | Inr id_token_contents \<Rightarrow>
                read_prop id_token_contents ''nonce'' (\<lambda>n.
                  if \<not> strict_eq nonce n then error ''Invalid nonce''
                  else then_do (loadMetadataAsync E)
                               (validate_claims E id_token_contents access_token))))" for v
    by (auto split: option.splits sum.splits)
  then show ?thesis
    unfolding validateIdTokenAsync_def
    by (intro preserves_then_do preserves_loadX509SigningKeyAsync)
qed

lemma preserves_validateAccessTokenAsync [intro!, simp]:
  "preserves (validateAccessTokenAsync E contents access_token)"
  unfolding validateAccessTokenAsync_def Let_def
  by (intro preserves_read_prop preserves_if preserves_error preserves_resolve)

lemma preserves_validateIdTokenAndAccessTokenAsync [intro!, simp]:
  "preserves (validateIdTokenAndAccessTokenAsync E id_token nonce access_token)"
  unfolding validateIdTokenAndAccessTokenAsync_def
  by (intro preserves_then_do preserves_validateIdTokenAsync
        preserves_validateAccessTokenAsync preserves_resolve)

lemma preserves_oidc_checks [intro!, simp]: "preserves (oidc_checks request_state result)"
  unfolding oidc_checks_def
  by (intro preserves_read_prop preserves_if preserves_error preserves_resolve)

lemma preserves_oauth_checks [intro!, simp]: "preserves (oauth_checks request_state result)"
proof -
  have a: "preserves (case v of Inl e \<Rightarrow> reject e
                       | Inr lower \<Rightarrow>
                           if \<not> strict_eq lower (JStr ''bearer'') then error ''Invalid token type''
                           else read_prop result ''expires_in'' (\<lambda>expires_in.
                                  if \<not> js_truthy expires_in then error ''No token expiration''
                                  else resolve ()))" for v
    by (auto split: sum.splits)
  show ?thesis
    unfolding oauth_checks_def
    by (intro preserves_read_prop preserves_if preserves_error preserves_resolve a)
qed

lemma preserves_localPromise [intro!, simp]: "preserves (localPromise E request_state result)"
  unfolding localPromise_def
  by (intro preserves_read_prop preserves_if preserves_resolve
        preserves_validateIdTokenAndAccessTokenAsync preserves_validateIdTokenAsync)

lemma preserves_build_session [intro!, simp]: "preserves (build_session result profile)"
  unfolding preserves_def build_session_def Let_def read_prop_def resolve_def
  by (auto split: sum.splits)

lemma preserves_process_with_state [intro!, simp]: "preserves (process_with_state E result text)"
proof -
  have a: "preserves (case v of Inl e \<Rightarrow> reject e
           | Inr request_state \<Rightarrow>
               if \<not> js_truthy request_state then error ''No request state loaded''
               else read_prop request_state ''state'' (\<lambda>state.
                 if \<not> js_truthy state then error ''No state loaded''
                 else if \<not> js_truthy result then error ''No OIDC response''
                 else read_prop result ''error'' (\<lambda>err.
                   if js_truthy err then error (ToString err)
                   else read_prop result ''state'' (\<lambda>result_state.
                     if \<not> strict_eq result_state state then error ''Invalid state''
                     else then_do (oidc_checks request_state result) (\<lambda>u.
                          then_do (oauth_checks request_state result) (\<lambda>u'.
                          then_do (localPromise E request_state result)
                                  (build_session result)))))))" for v
    by (auto split: sum.splits)
  show ?thesis
    unfolding process_with_state_def by (intro preserves_if preserves_error a)
qed

lemma preserves_loadAuthorizationEndpoint [intro!, simp]: "preserves (loadAuthorizationEndpoint E)"
proof -
  have "preserves (\<lambda>c. if js_truthy (settings c ''authorization_endpoint'')
      then resolve (settings c ''authorization_endpoint'') c
      else if \<not> js_truthy (settings c ''authority'')
      then error ''No authorization_endpoint configured'' c
      else catch_do
             (then_do (loadMetadataAsync E) (\<lambda>metadata.
                if \<not> js_truthy metadata
                then error ''Metadata does not contain authorization_endpoint''
                else read_prop metadata ''authorization_endpoint'' (\<lambda>ep.
                       if \<not> js_truthy ep
                       then error ''Metadata does not contain authorization_endpoint''
                       else resolve ep)))
             (\<lambda>err. reject TypeError) c)"
    apply (rule preserves_if_state)
     apply (simp add: preserves_def resolve_def)
    apply (rule preserves_if_state)
     apply simp
    apply (intro preserves_catch_do preserves_then_do preserves_loadMetadataAsync preserves_if
        preserves_error preserves_read_prop preserves_resolve preserves_reject)
    done
  then show ?thesis unfolding loadAuthorizationEndpoint_def [abs_def] .
qed

subsection \<open>The response processor, case by case\<close>

lemma processResponseAsync_explicit:
  "js_truthy requestState \<Longrightarrow>
   processResponseAsync E result requestState c = process_with_state E result requestState c"
  by (simp add: processResponseAsync_def load_request_state_def then_do_def)

lemma processResponseAsync_stored:
  "\<not> js_truthy requestState \<Longrightarrow>
   processResponseAsync E result requestState c =
     process_with_state E result (request_state_store c (settings c ''request_state_key''))
       (c\<lparr>request_state_store := (request_state_store c)(settings c ''request_state_key'' := JUndefined)\<rparr>)"
  by (simp add: processResponseAsync_def load_request_state_def then_do_def Let_def)

lemma process_with_state_missing:
  "\<not> js_truthy t \<Longrightarrow>
   process_with_state E result t c = (Inl (Failure ''No request state loaded''), c)"
  by (simp add: process_with_state_def error_def reject_def utility_error_def)

lemma process_with_state_unparsable:
  "js_truthy t \<Longrightarrow> JSON_parse t = Inl e \<Longrightarrow> process_with_state E result t c = (Inl e, c)"
  by (simp add: process_with_state_def reject_def)

lemma process_with_state_falsy_value:
  "JSON_parse t = Inr v \<Longrightarrow> \<not> js_truthy v \<Longrightarrow>
   process_with_state E result t c = (Inl (Failure ''No request state loaded''), c)"
  by (simp add: process_with_state_def error_def reject_def utility_error_def)

lemma index_of_key_state: "index_of_key ''state'' = None"
  by (simp add: index_of_key_def is_digit_def)

lemma truthy_state_of_truthy:
  "get_prop v ''state'' = Inr x \<Longrightarrow> js_truthy x \<Longrightarrow> js_truthy v"
  by (cases v) (auto simp: index_of_key_state split: if_splits)

lemma JSON_parse_undefined: "JSON_parse JUndefined = Inl SyntaxError"
  by code_simp

lemma JSON_parse_null: "JSON_parse JNull = Inr JNull"
  by code_simp

lemma JSON_parse_false: "JSON_parse (JBool False) = Inr (JBool False)"
  by code_simp

lemma JSON_parse_zero: "JSON_parse (JNum (Fin 0)) = Inr (JNum (Fin 0))"
  by code_simp

lemma JSON_parse_NaN: "JSON_parse (JNum NaN) = Inl SyntaxError"
  by code_simp

lemma JSON_parse_empty: "JSON_parse (JStr []) = Inl SyntaxError"
  by code_simp

lemma falsy_text_no_state:
  assumes "\<not> js_truthy t" and "JSON_parse t = Inr rs" and "get_prop rs ''state'' = Inr st"
  shows "\<not> js_truthy st"
  using assms
  by (cases t)
     (auto simp: JSON_parse_undefined JSON_parse_null JSON_parse_false JSON_parse_zero JSON_parse_NaN
        JSON_parse_empty)

lemma process_with_state_mismatch:
  assumes "JSON_parse t = Inr request_state"
      and "get_prop request_state ''state'' = Inr state" and "js_truthy state"
      and "js_truthy result"
      and "get_prop result ''error'' = Inr err" and "\<not> js_truthy err"
      and "get_prop result ''state'' = Inr result_state"
      and "\<not> strict_eq result_state state"
  shows "process_with_state E result t c = (Inl (Failure ''Invalid state''), c)"
proof -
  have t: "js_truthy t" using falsy_text_no_state assms(1-3) by blast
  have r: "js_truthy request_state" using truthy_state_of_truthy assms(2,3) by blast
  show ?thesis
    using assms t r
    by (simp add: process_with_state_def read_prop_def error_def reject_def utility_error_def)
qed

subsection \<open>The assembled URL\<close>

lemma split_ws_empty: "split_ws [] = [[]]"
  by code_simp

lemma isOidc_includes:
  assumes "isOidc s = Inr b"
  shows "b = includes_token (s ''response_type'') ''id_token''"
proof (cases "js_truthy (s ''response_type'')")
  case False
  then have "\<not> includes_token (s ''response_type'') ''id_token''"
    by (cases "s ''response_type''") (auto simp: includes_token_def split_ws_empty)
  then show ?thesis using assms False by (simp add: isOidc_def)
next
  case True
  then obtain rt where rt: "s ''response_type'' = JStr rt"
    using assms by (cases "s ''response_type''") (auto simp: isOidc_def js_split_ws_def bind_result_def)
  then have "rt \<noteq> []" using True by simp
  then show ?thesis using assms isOidc_string [of s rt] rt by (simp add: includes_token_def)
qed

lemma isOauth_of_isOidc:
  assumes "isOidc s = Inr b"
  shows "\<exists>b'. isOauth s = Inr b'"
  using assms unfolding isOidc_def isOauth_def bind_result_def
  by (auto split: if_splits sum.splits)

lemma hex_digits_unreserved: "list_all (\<lambda>d. is_uri_unreserved (hex_digit d)) [0..<16]"
  by code_simp

lemma hex_digit_unreserved: "d < 16 \<Longrightarrow> is_uri_unreserved (hex_digit d)"
  using hex_digits_unreserved by (simp add: list_all_iff)

lemma percent_encoded_pct_byte: "n < 256 \<Longrightarrow> percent_encoded (pct_byte n)"
  by (simp add: percent_encoded_def pct_byte_def hex_digit_unreserved less_mult_imp_div_less)

lemma of_char_less_256: "(of_char (c::char) :: nat) < 256"
proof -
  have "(of_char c :: nat) = of_char c mod 256" by (simp only: of_char_mod_256)
  also have "\<dots> < 256" by simp
  finally show ?thesis .
qed

lemma percent_encoded_encode_char: "percent_encoded (encode_char c)"
proof -
  have n: "(of_char c :: nat) < 256" by (rule of_char_less_256)
  then have a: "192 + (of_char c :: nat) div 64 < 256" and b: "128 + (of_char c :: nat) mod 64 < 256"
    by arith+
  show ?thesis
    using n percent_encoded_pct_byte [OF a] percent_encoded_pct_byte [OF b]
      percent_encoded_pct_byte [OF n]
    by (auto simp: encode_char_def Let_def percent_encoded_def)
qed

lemma percent_encoded_encodeURIComponent: "percent_encoded (encodeURIComponent v)"
proof -
  have "percent_encoded (concat (map encode_char s))" for s
    using percent_encoded_encode_char
    by (induction s) (auto simp: percent_encoded_def)
  then show ?thesis by (simp add: encodeURIComponent_def)
qed

lemma createTokenRequestAsync_url:
  assumes ep: "loadAuthorizationEndpoint E c = (Inr endpoint, c1)"
      and oidc: "isOidc (settings c) = Inr b"
  shows "\<exists>request c'. createTokenRequestAsync E rand1 rand2 c = (Inr request, c')
           \<and> get_prop request ''url''
               = Inr (JStr (spec_authorization_url (ToString endpoint) rand1 rand2 (settings c)))"
proof -
  have keep: "settings c1 k = settings c k" if "k \<noteq> ''metadata''" "k \<noteq> ''jwks''" for k
    using preservesD(2) [OF preserves_loadAuthorizationEndpoint ep] that by simp
  have rt: "settings c1 ''response_type'' = settings c ''response_type''"
    by (rule keep) simp_all
  have "isOidc (settings c1) = isOidc (settings c)"
    by (simp only: isOidc_def rt)
  then have oidc1: "isOidc (settings c1) = Inr b"
    using oidc by simp
  obtain b' where oauth1: "isOauth (settings c1) = Inr b'"
    using isOauth_of_isOidc [OF oidc1] by blast
  have b: "b = includes_token (settings c ''response_type'') ''id_token''"
    by (rule isOidc_includes [OF oidc])
  have params: "filter (\<lambda>key. js_truthy (settings c1 key)) (required @ optional)
                  = filter (\<lambda>key. js_truthy (settings c key)) (required @ optional)"
    by (simp add: required_def optional_def keep)
  have qp: "''&'' @ k @ ''='' @ encodeURIComponent (settings c1 k) = query_parameter (settings c) k"
    if "k \<in> set (required @ optional)" for k
    using that by (auto simp: query_parameter_def required_def optional_def keep)
  have enc: "map (\<lambda>k. ''&'' @ k @ ''='' @ encodeURIComponent (settings c1 k))
                   (filter (\<lambda>key. js_truthy (settings c1 key)) (required @ optional))
               = map (query_parameter (settings c))
                   (filter (\<lambda>key. js_truthy (settings c1 key)) (required @ optional))"
  proof (rule map_cong [OF refl])
    fix k
    assume "k \<in> set (filter (\<lambda>key. js_truthy (settings c1 key)) (required @ optional))"
    then have "k \<in> set (required @ optional)" by auto
    then show "''&'' @ k @ ''='' @ encodeURIComponent (settings c1 k) = query_parameter (settings c) k"
      by (rule qp)
  qed
  have fold2: "foldl (append_param (settings c1)) (foldl (append_param (settings c1)) u required) optional
         = u @ concat (map (query_parameter (settings c))
                 (filter (\<lambda>key. js_truthy (settings c key)) (required @ optional)))" for u
  proof -
    have "foldl (append_param (settings c1)) (foldl (append_param (settings c1)) u required) optional
            = foldl (append_param (settings c1)) u (required @ optional)" by simp
    also have "\<dots> = u @ concat (map (\<lambda>k. ''&'' @ k @ ''='' @ encodeURIComponent (settings c1 k))
                 (filter (\<lambda>key. js_truthy (settings c1 key)) (required @ optional)))"
      by (rule foldl_append_param)
    also have "\<dots> = u @ concat (map (query_parameter (settings c))
                 (filter (\<lambda>key. js_truthy (settings c1 key)) (required @ optional)))"
      by (simp only: enc)
    finally show ?thesis by (simp only: params)
  qed
  have all: "required @ optional = [''client_id'', ''redirect_uri'', ''response_type'', ''scope'',
             ''prompt'', ''display'', ''max_age'', ''ui_locales'', ''id_token_hint'',
             ''login_hint'', ''acr_values'', ''response_mode'']"
    by (simp add: required_def optional_def)
  show ?thesis
    unfolding createTokenRequestAsync_def then_do_def spec_authorization_url_def
    using ep oidc1 oauth1 b
    by (simp add: Let_def fold2 all [symmetric] del: foldl_append)
qed

subsection \<open>Key selection and token verification\<close>

lemma strict_eq_JStr_right [simp]: "strict_eq v (JStr s) = (v = JStr s)"
  by (cases v) auto

lemma strict_eq_JStr_left [simp]: "strict_eq (JStr s) v = (v = JStr s)"
  by (cases v) auto

lemma index_of_key_0 [simp]: "index_of_key ''0'' = Some 0"
  by (simp add: index_of_key_def is_digit_def digits_value_def)

lemma getKeyAsync_empty:
  "get_prop jwks ''keys'' = Inr (JArr []) \<Longrightarrow>
   getKeyAsync jwks c = (Inl (Failure ''Signing keys empty''), c)"
  by (simp add: getKeyAsync_def read_prop_def error_def reject_def utility_error_def)

lemma getKeyAsync_first_key:
  assumes "get_prop jwks ''keys'' = Inr (JArr (key # rest))"
      and "get_prop key ''kty'' = Inr kty"
      and "get_prop key ''x5c'' = Inr (JArr certs)"
  shows "getKeyAsync jwks c =
           (if kty \<noteq> JStr ''RSA'' then Inl (Failure ''Signing key not RSA'')
            else case certs of [] \<Rightarrow> Inl (Failure ''RSA keys empty'') | cert # others \<Rightarrow> Inr cert, c)"
  using assms
  by (cases certs)
     (simp_all add: getKeyAsync_def read_prop_def error_def reject_def utility_error_def resolve_def)

lemma getKeyAsync_not_RSA:
  assumes "get_prop jwks ''keys'' = Inr (JArr (key # rest))"
      and "get_prop key ''kty'' = Inr kty" and "kty \<noteq> JStr ''RSA''"
  shows "getKeyAsync jwks c = (Inl (Failure ''Signing key not RSA''), c)"
  using assms
  by (simp add: getKeyAsync_def read_prop_def error_def reject_def utility_error_def)

lemma getKeyAsync_no_chain:
  assumes "get_prop jwks ''keys'' = Inr (JArr (key # rest))"
      and "get_prop key ''kty'' = Inr (JStr ''RSA'')"
      and "get_prop key ''x5c'' = Inr x5c" and "\<not> js_truthy x5c \<or> x5c = JArr []"
  shows "getKeyAsync jwks c = (Inl (Failure ''RSA keys empty''), c)"
  using assms
  by (auto simp: getKeyAsync_def read_prop_def error_def reject_def utility_error_def)

lemma get_prop_defined:
  "get_prop v k = Inr x \<Longrightarrow> \<exists>y. get_prop v k' = Inr y"
  by (cases v) auto

lemma loadX509SigningKeyAsync_key_set:
  assumes "key_set_in_use E c jwks c'"
  shows "loadX509SigningKeyAsync E c = getKeyAsync jwks c'"
  using assms unfolding key_set_in_use_def loadX509SigningKeyAsync_def then_do_def read_prop_def
  by (auto split: if_splits prod.splits sum.splits)

lemma validateIdTokenAsync_verified:
  assumes "loadX509SigningKeyAsync E c = (Inr cert, c1)"
      and "verifyJWSByPemX509Cert E id_token cert = Some payloadS"
      and "JSON_parse (JStr payloadS) = Inr contents"
      and "get_prop contents ''nonce'' = Inr n" and "strict_eq nonce n"
      and "loadMetadataAsync E c1 = (Inr metadata, c2)"
  shows "validateIdTokenAsync E id_token nonce access_token c
           = validate_claims E contents access_token metadata c2"
  using assms by (simp add: validateIdTokenAsync_def then_do_def read_prop_def)

lemma validate_claims_checked:
  assumes "get_prop contents ''iss'' = Inr iss" and "get_prop metadata ''issuer'' = Inr issuer"
      and "strict_eq iss issuer"
      and "get_prop contents ''aud'' = Inr aud" and "strict_eq aud (settings c ''client_id'')"
      and "get_prop contents ''iat'' = Inr iat"
      and "get_prop contents ''exp'' = Inr expiry"
  shows "validate_claims E contents access_token metadata c =
           (if num_gt (js_minus (JInt (now_seconds E)) iat) 300
            then (Inl (Failure ''Token issued too long ago''), c)
            else if js_lt_num expiry (now_seconds E) then (Inl (Failure ''Token expired''), c)
            else if js_truthy access_token \<and> js_truthy (settings c ''load_user_profile'')
            then then_do (loadUserProfile E access_token) (merge_profile contents) c
            else (Inr contents, c))"
  using assms
  by (simp add: validate_claims_def read_prop_def error_def reject_def utility_error_def
      resolve_def Let_def)

lemma get_prop_Inl: "get_prop v k = Inl e \<Longrightarrow> e = TypeError"
  by (cases v) auto

lemma profile_step_failures:
  assumes "then_do (loadUserProfile E access_token) (merge_profile contents) c = (Inl e, c')"
  shows "e \<noteq> Failure ''Token issued too long ago'' \<and> e \<noteq> Failure ''Token expired''"
  using assms
  unfolding then_do_def loadUserProfile_def loadMetadataAsync_def merge_profile_def read_prop_def
    error_def reject_def utility_error_def resolve_def
  by (auto split: if_splits sum.splits prod.splits dest: get_prop_Inl)

subsection \<open>Copying and merging claims\<close>

lemma map_of_set_entry: "map_of (set_entry k v ps) = (map_of ps)(k \<mapsto> v)"
  by (induction ps) (auto simp: fun_eq_iff)

lemma set_entry_fresh: "k \<notin> fst ` set ps \<Longrightarrow> set_entry k v ps = ps @ [(k, v)]"
  by (induction ps) auto

lemma fold_set_entry_fresh:
  "distinct (map fst qs) \<Longrightarrow> fst ` set qs \<inter> fst ` set ps = {} \<Longrightarrow>
   fold (\<lambda>p acc. set_entry (fst p) (snd p) acc) qs ps = ps @ qs"
proof (induction qs arbitrary: ps)
  case Nil
  then show ?case by simp
next
  case (Cons q qs)
  have "set_entry (fst q) (snd q) ps = ps @ [q]"
    using Cons.prems(2) by (simp add: set_entry_fresh)
  moreover have "fst ` set qs \<inter> fst ` set (ps @ [q]) = {}"
    using Cons.prems by auto
  ultimately show ?case using Cons.IH [of "ps @ [q]"] Cons.prems(1) by simp
qed

lemma map_of_fold_set_entry:
  "distinct (map fst qs) \<Longrightarrow>
   map_of (fold (\<lambda>p acc. set_entry (fst p) (snd p) acc) qs ps) k
     = (case map_of qs k of Some v \<Rightarrow> Some v | None \<Rightarrow> map_of ps k)"
proof (induction qs arbitrary: ps)
  case Nil
  then show ?case by simp
next
  case (Cons q qs)
  obtain a b where q: "q = (a, b)" by (cases q)
  have fresh: "map_of qs a = None"
    using Cons.prems q by (simp add: map_of_eq_None_iff)
  show ?case
    using Cons.IH [of "set_entry a b ps"] Cons.prems q fresh
    by (auto simp: map_of_set_entry split: option.splits)
qed

lemma utility_copy_alone:
  "distinct (map fst ps) \<Longrightarrow> utility_copy (JObj ps) JUndefined = JObj ps"
  using fold_set_entry_fresh [of ps "[]"] by (simp add: utility_copy_def)

lemma utility_copy_merge:
  assumes "distinct (map fst qs)"
  shows "\<exists>merged. utility_copy (JObj qs) (JObj ps) = JObj merged
           \<and> (\<forall>k. map_of merged k = (case map_of qs k of Some v \<Rightarrow> Some v | None \<Rightarrow> map_of ps k))"
  using map_of_fold_set_entry [OF assms] by (simp add: utility_copy_def)

subsection \<open>A successful response\<close>

lemma then_do_Inr:
  assumes "then_do p f c = (Inr v, c')"
  obtains x c1 where "p c = (Inr x, c1)" and "f x c1 = (Inr v, c')"
  using assms unfolding then_do_def by (auto split: prod.splits sum.splits)

lemma read_prop_Inr:
  assumes "read_prop v k f c = (Inr r, c')"
  obtains x where "get_prop v k = Inr x" and "f x c = (Inr r, c')"
  using assms unfolding read_prop_def by (auto split: sum.splits)

lemma error_not_Inr [simp]: "error m c \<noteq> (Inr v, c')"
  by (simp add: error_def reject_def)

lemma reject_not_Inr [simp]: "reject e c \<noteq> (Inr v, c')"
  by (simp add: reject_def)

lemma oidc_checks_pure: "snd (oidc_checks request_state result c) = c"
  unfolding oidc_checks_def read_prop_def error_def reject_def resolve_def
  by (auto split: sum.splits)

lemma oauth_checks_pure: "snd (oauth_checks request_state result c) = c"
  unfolding oauth_checks_def read_prop_def error_def reject_def resolve_def
  by (auto split: sum.splits)

lemma foldl_delete_prop:
  "foldl delete_prop (JObj ps) ks = JObj (filter (\<lambda>p. fst p \<notin> set ks) ps)"
proof (induction ks arbitrary: ps)
  case Nil
  then show ?case by simp
next
  case (Cons k ks)
  have "filter (\<lambda>p. fst p \<notin> set ks) (filter (\<lambda>p. fst p \<noteq> k) ps)
          = filter (\<lambda>p. fst p \<notin> set (k # ks)) ps"
    by (induction ps) auto
  then show ?case using Cons.IH [of "filter (\<lambda>p. fst p \<noteq> k) ps"] by simp
qed

lemma filter_keys_removed:
  "k \<in> K \<Longrightarrow>
   k \<notin> fst ` set (filter (\<lambda>p. fst p \<notin> K) ps) \<and> map_of (filter (\<lambda>p. fst p \<notin> K) ps) k = None"
  by (auto simp: map_of_eq_None_iff)

lemma filter_keys_kept:
  "k \<notin> K \<Longrightarrow> map_of (filter (\<lambda>p. fst p \<notin> K) ps) k = map_of ps k"
  by (induction ps) auto

lemma build_session_profile:
  assumes "build_session result claims c = (Inr session, c')"
  shows "c' = c"
    and "get_prop session ''profile''
           = Inr (if js_truthy claims \<and> js_truthy (settings c ''filter_protocol_claims'')
                  then foldl delete_prop claims remove else claims)"
  using assms unfolding build_session_def read_prop_def resolve_def Let_def
  by (auto split: sum.splits)

lemma process_with_state_Inr:
  assumes "process_with_state E result text c = (Inr session, c')"
  obtains request_state claims c2 where
    "JSON_parse text = Inr request_state"
    "localPromise E request_state result c = (Inr claims, c2)"
    "build_session result claims c2 = (Inr session, c')"
proof -
  from assms obtain request_state where
    p: "JSON_parse text = Inr request_state" and
    r: "read_prop request_state ''state'' (\<lambda>state.
                 if \<not> js_truthy state then error ''No state loaded''
                 else if \<not> js_truthy result then error ''No OIDC response''
                 else read_prop result ''error'' (\<lambda>err.
                   if js_truthy err then error (ToString err)
                   else read_prop result ''state'' (\<lambda>result_state.
                     if \<not> strict_eq result_state state then error ''Invalid state''
                     else then_do (oidc_checks request_state result) (\<lambda>u.
                          then_do (oauth_checks request_state result) (\<lambda>u'.
                          then_do (localPromise E request_state result)
                                  (build_session result)))))) c = (Inr session, c')"
    unfolding process_with_state_def by (auto split: if_splits sum.splits)
  from r obtain state where
    "(if \<not> js_truthy state then error ''No state loaded''
                 else if \<not> js_truthy result then error ''No OIDC response''
                 else read_prop result ''error'' (\<lambda>err.
                   if js_truthy err then error (ToString err)
                   else read_prop result ''state'' (\<lambda>result_state.
                     if \<not> strict_eq result_state state then error ''Invalid state''
                     else then_do (oidc_checks request_state result) (\<lambda>u.
                          then_do (oauth_checks request_state result) (\<lambda>u'.
                          then_do (localPromise E request_state result)
                                  (build_session result)))))) c = (Inr session, c')"
    by (rule read_prop_Inr)
  then have "read_prop result ''error'' (\<lambda>err.
                   if js_truthy err then error (ToString err)
                   else read_prop result ''state'' (\<lambda>result_state.
                     if \<not> strict_eq result_state state then error ''Invalid state''
                     else then_do (oidc_checks request_state result) (\<lambda>u.
                          then_do (oauth_checks request_state result) (\<lambda>u'.
                          then_do (localPromise E request_state result)
                                  (build_session result))))) c = (Inr session, c')"
    by (auto split: if_splits)
  then obtain err where
    "(if js_truthy err then error (ToString err)
                   else read_prop result ''state'' (\<lambda>result_state.
                     if \<not> strict_eq result_state state then error ''Invalid state''
                     else then_do (oidc_checks request_state result) (\<lambda>u.
                          then_do (oauth_checks request_state result) (\<lambda>u'.
                          then_do (localPromise E request_state result)
                                  (build_session result))))) c = (Inr session, c')"
    by (rule read_prop_Inr)
  then have "read_prop result ''state'' (\<lambda>result_state.
                     if \<not> strict_eq result_state state then error ''Invalid state''
                     else then_do (oidc_checks request_state result) (\<lambda>u.
                          then_do (oauth_checks request_state result) (\<lambda>u'.
                          then_do (localPromise E request_state result)
                                  (build_session result)))) c = (Inr session, c')"
    by (auto split: if_splits)
  then obtain result_state where
    "(if \<not> strict_eq result_state state then error ''Invalid state''
                     else then_do (oidc_checks request_state result) (\<lambda>u.
                          then_do (oauth_checks request_state result) (\<lambda>u'.
                          then_do (localPromise E request_state result)
                                  (build_session result)))) c = (Inr session, c')"
    by (rule read_prop_Inr)
  then have "then_do (oidc_checks request_state result) (\<lambda>u.
                          then_do (oauth_checks request_state result) (\<lambda>u'.
                          then_do (localPromise E request_state result)
                                  (build_session result))) c = (Inr session, c')"
    by (auto split: if_splits)
  then obtain u ca where
    a: "oidc_checks request_state result c = (Inr u, ca)" and
    b: "then_do (oauth_checks request_state result) (\<lambda>u'.
                          then_do (localPromise E request_state result)
                                  (build_session result)) ca = (Inr session, c')"
    by (rule then_do_Inr)
  have ca: "ca = c" using oidc_checks_pure [of request_state result c] a by simp
  from b obtain u' cb where
    d: "oauth_checks request_state result ca = (Inr u', cb)" and
    e: "then_do (localPromise E request_state result) (build_session result) cb = (Inr session, c')"
    by (rule then_do_Inr)
  have cb: "cb = c" using oauth_checks_pure [of request_state result ca] d ca by simp
  from e obtain claims c2 where
    "localPromise E request_state result cb = (Inr claims, c2)"
    "build_session result claims c2 = (Inr session, c')"
    by (rule then_do_Inr)
  then show ?thesis using that p cb by simp
qed

section \<open>The example inputs, evaluated\<close>

lemma parse_stored_request_state:
  "JSON_parse (JStr stored_request_state) = Inr (JObj parsed_request_state)"
  unfolding stored_request_state_def parsed_request_state_def by code_simp

lemma parse_idp_payload: "JSON_parse (JStr idp_payload) = Inr (JObj idp_claims)"
  unfolding idp_payload_def idp_claims_def by code_simp

lemma parse_stale_payload: "JSON_parse (JStr stale_payload) = Inr (JObj stale_claims)"
  unfolding stale_payload_def stale_claims_def by code_simp

lemma parse_expired_payload: "JSON_parse (JStr expired_payload) = Inr (JObj expired_claims)"
  unfolding expired_payload_def expired_claims_def by code_simp

lemma parse_early_payload: "JSON_parse (JStr early_payload) = Inr (JObj early_claims)"
  unfolding early_payload_def early_claims_def by code_simp

lemma parse_open_brace: "JSON_parse (JStr ''{'') = Inl SyntaxError"
  by code_simp

lemma parse_form_encoded: "JSON_parse (JStr ''state=s-1'') = Inl SyntaxError"
  by code_simp

lemma now_idp_env: "now_seconds idp_env = 1700000100"
  by (simp add: now_seconds_def idp_env_def)

lemma app_signing_key:
  "settings c = app_settings \<Longrightarrow> loadX509SigningKeyAsync idp_env c = (Inr (JStr ''MIIC''), c)"
  by (simp add: loadX509SigningKeyAsync_def app_settings_def idp_jwks_def rsa_key_def
      getKeyAsync_def read_prop_def resolve_def)

lemma app_metadata:
  "settings c = app_settings \<Longrightarrow> loadMetadataAsync idp_env c = (Inr idp_metadata, c)"
  by (simp add: loadMetadataAsync_def app_settings_def idp_metadata_def resolve_def)

lemma idp_verify:
  "verifyJWSByPemX509Cert idp_env (JStr ''header.payload.signature'') (JStr ''MIIC'') = Some idp_payload"
  by (simp add: idp_env_def)

lemma idp_verify_stale:
  "verifyJWSByPemX509Cert idp_env (JStr ''header.stale.signature'') (JStr ''MIIC'') = Some stale_payload"
  by (simp add: idp_env_def)

lemma idp_verify_expired:
  "verifyJWSByPemX509Cert idp_env (JStr ''header.expired.signature'') (JStr ''MIIC'') = Some expired_payload"
  by (simp add: idp_env_def)

lemma idp_verify_early:
  "verifyJWSByPemX509Cert idp_env (JStr ''header.early.signature'') (JStr ''MIIC'') = Some early_payload"
  by (simp add: idp_env_def)

lemma idp_claims_props:
  "get_prop (JObj idp_claims) ''nonce'' = Inr (JStr ''n-1'')"
  "get_prop (JObj idp_claims) ''iss'' = Inr (JStr ''https://idp.example'')"
  "get_prop (JObj idp_claims) ''aud'' = Inr (JStr ''app'')"
  "get_prop (JObj idp_claims) ''iat'' = Inr (JNum (Fin 1699999800))"
  "get_prop (JObj idp_claims) ''exp'' = Inr (JNum (Fin 1700000100))"
  "get_prop (JObj idp_claims) ''at_hash'' = Inr (JStr ''ungWv48Bz-pBQUDeXa4iIw'')"
  "get_prop (JObj idp_claims) ''nbf'' = Inr (JNum (Fin 1699999800))"
  "get_prop (JObj idp_claims) ''idp'' = Inr (JStr ''idsrv'')"
  by (simp_all add: idp_claims_def)

lemma stale_claims_props:
  "get_prop (JObj stale_claims) ''nonce'' = Inr (JStr ''n-1'')"
  "get_prop (JObj stale_claims) ''iss'' = Inr (JStr ''https://idp.example'')"
  "get_prop (JObj stale_claims) ''aud'' = Inr (JStr ''app'')"
  "get_prop (JObj stale_claims) ''iat'' = Inr (JNum (Fin 1699999799))"
  "get_prop (JObj stale_claims) ''exp'' = Inr (JNum (Fin 1700000099))"
  by (simp_all add: stale_claims_def)

lemma expired_claims_props:
  "get_prop (JObj expired_claims) ''nonce'' = Inr (JStr ''n-1'')"
  "get_prop (JObj expired_claims) ''iss'' = Inr (JStr ''https://idp.example'')"
  "get_prop (JObj expired_claims) ''aud'' = Inr (JStr ''app'')"
  "get_prop (JObj expired_claims) ''iat'' = Inr (JNum (Fin 1699999800))"
  "get_prop (JObj expired_claims) ''exp'' = Inr (JNum (Fin 1700000099))"
  by (simp_all add: expired_claims_def)

lemma early_claims_props:
  "get_prop (JObj early_claims) ''nonce'' = Inr (JStr ''n-1'')"
  "get_prop (JObj early_claims) ''iss'' = Inr (JStr ''https://idp.example'')"
  "get_prop (JObj early_claims) ''aud'' = Inr (JStr ''app'')"
  "get_prop (JObj early_claims) ''iat'' = Inr (JNum (Fin 1699999799.5))"
  "get_prop (JObj early_claims) ''exp'' = Inr (JStr ''1700000100'')"
  by (simp_all add: early_claims_def)

text \<open>The two comparisons of the time window, at the clock's time 1700000100.\<close>

lemma too_old_at_clock:
  "\<not> num_gt (js_minus (JInt 1700000100) (JNum (Fin 1699999800))) 300"
  "num_gt (js_minus (JInt 1700000100) (JNum (Fin 1699999799))) 300"
  "num_gt (js_minus (JInt 1700000100) (JNum (Fin 1699999799.5))) 300"
  by code_simp+

lemma expired_at_clock:
  "\<not> js_lt_num (JNum (Fin 1700000100)) 1700000100"
  "js_lt_num (JNum (Fin 1700000099)) 1700000100"
  "\<not> js_lt_num (JStr ''1700000100'') 1700000100"
  by code_simp+

lemma idp_issuer: "get_prop idp_metadata ''issuer'' = Inr (JStr ''https://idp.example'')"
  by (simp add: idp_metadata_def)

lemma app_settings_values:
  "app_settings ''client_id'' = JStr ''app''"
  "app_settings ''load_user_profile'' = JBool True"
  "app_settings ''filter_protocol_claims'' = JBool True"
  "app_settings ''request_state_key'' = JStr ''OidcClient.request_state''"
  "app_settings ''response_type'' = JStr ''id_token token''"
  "app_settings ''authorization_endpoint'' = JStr ''https://idp.example/authorize''"
  "app_settings ''jwks'' = idp_jwks"
  by (simp_all add: app_settings_def)

lemma app_validateIdToken:
  assumes "settings c = app_settings"
  shows "validateIdTokenAsync idp_env (JStr ''header.payload.signature'') (JStr ''n-1'') JUndefined c
           = (Inr (JObj idp_claims), c)"
proof -
  have "validateIdTokenAsync idp_env (JStr ''header.payload.signature'') (JStr ''n-1'') JUndefined c
          = validate_claims idp_env (JObj idp_claims) JUndefined idp_metadata c"
    by (rule validateIdTokenAsync_verified
        [OF app_signing_key [OF assms] idp_verify parse_idp_payload idp_claims_props(1) _
          app_metadata [OF assms]]) simp
  also have "\<dots> = (Inr (JObj idp_claims), c)"
    using validate_claims_checked [of "JObj idp_claims" _ idp_metadata _ _ c _ _ idp_env JUndefined,
        OF idp_claims_props(2) idp_issuer _ idp_claims_props(3) _ idp_claims_props(4,5)] assms
      too_old_at_clock(1) expired_at_clock(1)
    by (simp add: app_settings_values now_idp_env)
  finally show ?thesis .
qed

lemma stale_validateIdToken:
  assumes "settings c = app_settings"
  shows "validateIdTokenAsync idp_env (JStr ''header.stale.signature'') (JStr ''n-1'') JUndefined c
           = (Inl (Failure ''Token issued too long ago''), c)"
proof -
  have "validateIdTokenAsync idp_env (JStr ''header.stale.signature'') (JStr ''n-1'') JUndefined c
          = validate_claims idp_env (JObj stale_claims) JUndefined idp_metadata c"
    by (rule validateIdTokenAsync_verified
        [OF app_signing_key [OF assms] idp_verify_stale parse_stale_payload stale_claims_props(1) _
          app_metadata [OF assms]]) simp
  also have "\<dots> = (Inl (Failure ''Token issued too long ago''), c)"
    using validate_claims_checked [of "JObj stale_claims" _ idp_metadata _ _ c _ _ idp_env JUndefined,
        OF stale_claims_props(2) idp_issuer _ stale_claims_props(3) _ stale_claims_props(4,5)] assms
      too_old_at_clock(2)
    by (simp add: app_settings_values now_idp_env)
  finally show ?thesis .
qed

lemma app_localPromise:
  assumes "settings c = app_settings"
  shows "localPromise idp_env (JObj parsed_request_state) callback c = (Inr (JObj idp_claims), c)"
  using app_validateIdToken [OF assms]
  by (simp add: localPromise_def read_prop_def parsed_request_state_def callback_def)

lemma app_build_session:
  assumes "settings c = app_settings"
  shows "build_session callback (JObj idp_claims) c = (Inr app_session, c)"
  using assms
  by (simp add: build_session_def read_prop_def resolve_def callback_def app_session_def
      app_settings_values foldl_delete_prop remove_def idp_claims_def)

lemma app_process_with_state:
  assumes "settings c = app_settings"
  shows "process_with_state idp_env callback (JStr stored_request_state) c = (Inr app_session, c)"
proof -
  have t: "js_truthy (JStr stored_request_state)"
    by (simp add: stored_request_state_def)
  have o: "oidc_checks (JObj parsed_request_state) callback c = (Inr (), c)"
    by (simp add: oidc_checks_def read_prop_def resolve_def parsed_request_state_def callback_def)
  have a: "oauth_checks (JObj parsed_request_state) callback c = (Inr (), c)"
    by (simp add: oauth_checks_def read_prop_def resolve_def parsed_request_state_def)
  have v: "then_do (oidc_checks (JObj parsed_request_state) callback) (\<lambda>u.
             then_do (oauth_checks (JObj parsed_request_state) callback) (\<lambda>u'.
             then_do (localPromise idp_env (JObj parsed_request_state) callback)
                     (build_session callback))) c = (Inr app_session, c)"
    using o a app_localPromise [OF assms] app_build_session [OF assms]
    by (simp add: then_do_def)
  have s: "get_prop (JObj parsed_request_state) ''state'' = Inr (JStr ''s-1'')"
    by (simp add: parsed_request_state_def)
  have r: "js_truthy callback" "get_prop callback ''error'' = Inr JUndefined"
    "get_prop callback ''state'' = Inr (JStr ''s-1'')"
    by (simp_all add: callback_def)
  show ?thesis
    using t s r v
    by (simp add: process_with_state_def parse_stored_request_state read_prop_def)
qed

section \<open>The claims\<close>

subsection \<open>C1: a state mismatch is refused\<close>

text \<open>
  Claim C1. Let the request state of a call (the argument, or the stored entry when no
  argument is given) parse to a value whose \<^verbatim>\<open>state\<close> is present, let the result be
  present and its \<^verbatim>\<open>error\<close> unset. If the state of the result differs from the
  state of the request, the call fails with \<^verbatim>\<open>Invalid state\<close>, whatever the other
  fields of the result are. Present and unset are the truthiness the source tests.
\<close>

theorem processResponse_state_mismatch:
  assumes "JSON_parse (if js_truthy requestState then requestState
                       else request_state_store c (settings c ''request_state_key'')) = Inr request_state"
      and "get_prop request_state ''state'' = Inr state" and "js_truthy state"
      and "js_truthy result"
      and "get_prop result ''error'' = Inr err" and "\<not> js_truthy err"
      and "get_prop result ''state'' = Inr result_state"
      and "\<not> strict_eq result_state state"
  shows "fst (processResponseAsync E result requestState c) = Inl (Failure ''Invalid state'')"
proof (cases "js_truthy requestState")
  case True
  then show ?thesis
    using assms process_with_state_mismatch [of requestState request_state state result err result_state E c]
    by (simp add: processResponseAsync_explicit)
next
  case False
  then show ?thesis
    using assms process_with_state_mismatch [of "request_state_store c (settings c ''request_state_key'')"
        request_state state result err result_state E]
    by (simp add: processResponseAsync_stored)
qed

theorem processResponse_state_mismatch_witness:
  "JSON_parse (if js_truthy JUndefined then JUndefined
               else request_state_store app_client (settings app_client ''request_state_key''))
     = Inr (JObj parsed_request_state)
   \<and> get_prop (JObj parsed_request_state) ''state'' = Inr (JStr ''s-1'') \<and> js_truthy (JStr ''s-1'')
   \<and> js_truthy forged_callback
   \<and> get_prop forged_callback ''error'' = Inr JUndefined \<and> \<not> js_truthy JUndefined
   \<and> get_prop forged_callback ''state'' = Inr (JStr ''s-2'')
   \<and> \<not> strict_eq (JStr ''s-2'') (JStr ''s-1'')
   \<and> fst (processResponseAsync idp_env forged_callback JUndefined app_client)
        = Inl (Failure ''Invalid state'')"
proof -
  have p: "JSON_parse (if js_truthy JUndefined then JUndefined
               else request_state_store app_client (settings app_client ''request_state_key''))
     = Inr (JObj parsed_request_state)"
    by (simp add: app_client_def app_settings_values parse_stored_request_state)
  have s: "get_prop (JObj parsed_request_state) ''state'' = Inr (JStr ''s-1'')"
    by (simp add: parsed_request_state_def)
  have t: "js_truthy (JStr ''s-1'')" and r: "js_truthy forged_callback"
    and e: "get_prop forged_callback ''error'' = Inr JUndefined" and u: "\<not> js_truthy JUndefined"
    and rs: "get_prop forged_callback ''state'' = Inr (JStr ''s-2'')"
    and ne: "\<not> strict_eq (JStr ''s-2'') (JStr ''s-1'')"
    by (simp_all add: forged_callback_def)
  from processResponse_state_mismatch [OF p s t r e u rs ne, of idp_env] p s t r e u rs ne
  show ?thesis by (intro conjI)
qed

subsection \<open>C2: the stored request state is used once\<close>

text \<open>
  Claim C2. A call without a request-state argument reads the entry of the store and
  clears it before anything is validated: the call is the processing of the stored
  entry on the cleared store, and the entry is gone afterwards whatever the outcome.
  So a second call without an argument fails with \<^verbatim>\<open>No request state loaded\<close>.
\<close>

theorem processResponse_single_use:
  assumes "\<not> js_truthy requestState"
  shows "(let key = settings c ''request_state_key'';
              cleared = c\<lparr>request_state_store := (request_state_store c)(key := JUndefined)\<rparr>;
              after = snd (processResponseAsync E result requestState c)
          in processResponseAsync E result requestState c
               = process_with_state E result (request_state_store c key) cleared
           \<and> request_state_store after key = JUndefined
           \<and> (\<forall>result' requestState'. \<not> js_truthy requestState' \<longrightarrow>
                fst (processResponseAsync E result' requestState' after)
                  = Inl (Failure ''No request state loaded'')))"
proof -
  define key where "key = settings c ''request_state_key''"
  define cleared where "cleared = c\<lparr>request_state_store := (request_state_store c)(key := JUndefined)\<rparr>"
  define after where "after = snd (processResponseAsync E result requestState c)"
  have run: "processResponseAsync E result requestState c
               = process_with_state E result (request_state_store c key) cleared"
    using assms by (simp add: processResponseAsync_stored key_def cleared_def)
  obtain r where r: "process_with_state E result (request_state_store c key) cleared = (r, after)"
    using run by (simp add: after_def prod_eq_iff)
  have store: "request_state_store after = request_state_store cleared"
    and keep: "settings after ''request_state_key'' = settings cleared ''request_state_key''"
    using preservesD [OF preserves_process_with_state r] by simp_all
  have gone: "request_state_store after key = JUndefined"
    using store by (simp add: cleared_def)
  have key': "settings after ''request_state_key'' = key"
    using keep by (simp add: cleared_def key_def)
  have again: "fst (processResponseAsync E result' requestState' after)
                  = Inl (Failure ''No request state loaded'')" if "\<not> js_truthy requestState'"
    for result' requestState'
    using that gone key' by (simp add: processResponseAsync_stored process_with_state_missing)
  show ?thesis
    using run gone again unfolding Let_def key_def [symmetric] cleared_def [symmetric] after_def [symmetric]
    by blast
qed

theorem processResponse_single_use_witness:
  "\<not> js_truthy JUndefined
   \<and> request_state_store (snd (processResponseAsync idp_env callback JUndefined app_client))
        (JStr ''OidcClient.request_state'') = JUndefined
   \<and> fst (processResponseAsync idp_env callback JNull
            (snd (processResponseAsync idp_env callback JUndefined app_client)))
        = Inl (Failure ''No request state loaded'')"
proof -
  have u: "\<not> js_truthy JUndefined" and n: "\<not> js_truthy JNull" by simp_all
  have k: "settings app_client ''request_state_key'' = JStr ''OidcClient.request_state''"
    by (simp add: app_client_def app_settings_values)
  note w = processResponse_single_use [OF u, of app_client idp_env callback, unfolded Let_def k]
  have a: "request_state_store (snd (processResponseAsync idp_env callback JUndefined app_client))
        (JStr ''OidcClient.request_state'') = JUndefined"
    using w by blast
  have b: "fst (processResponseAsync idp_env callback JNull
            (snd (processResponseAsync idp_env callback JUndefined app_client)))
        = Inl (Failure ''No request state loaded'')"
    using w n by blast
  show ?thesis using u a b by (intro conjI)
qed

subsection \<open>C6: a request state that is no JSON text\<close>

text \<open>
  Claim C6 says that a request state that is present but not parsable as JSON makes the
  call fail with \<^verbatim>\<open>No request state loaded\<close>. The source parses with \<^verbatim>\<open>JSON.parse\<close>
  and catches nothing, so the call ends with the \<open>SyntaxError\<close> of the parser. Here the
  stored entry is the text \<^verbatim>\<open>state=s-1\<close>.
\<close>

theorem processResponse_unparsable_counterexample:
  "request_state_store corrupt_client (settings corrupt_client ''request_state_key'') = JStr ''state=s-1''
   \<and> js_truthy (JStr ''state=s-1'')
   \<and> JSON_parse (JStr ''state=s-1'') = Inl SyntaxError
   \<and> fst (processResponseAsync idp_env callback JUndefined corrupt_client) = Inl SyntaxError
   \<and> fst (processResponseAsync idp_env callback JUndefined corrupt_client)
        \<noteq> Inl (Failure ''No request state loaded'')"
proof -
  have s: "request_state_store corrupt_client (settings corrupt_client ''request_state_key'') = JStr ''state=s-1''"
    by (simp add: corrupt_client_def app_settings_values)
  have t: "js_truthy (JStr ''state=s-1'')" by simp
  have "fst (processResponseAsync idp_env callback JUndefined corrupt_client) = Inl SyntaxError"
    using s process_with_state_unparsable [OF t parse_form_encoded]
    by (simp add: processResponseAsync_stored)
  then show ?thesis using s t parse_form_encoded by simp
qed

text \<open>
  Claim C6, amended. When the request state of a call is present and \<^verbatim>\<open>JSON.parse\<close>
  raises a syntax error on it, the call fails with that syntax error. The call fails
  with \<^verbatim>\<open>No request state loaded\<close> when the request state is missing, or parses to a
  value that is falsy (\<^verbatim>\<open>null\<close>, \<^verbatim>\<open>false\<close>, \<^verbatim>\<open>0\<close>, the empty string).
\<close>

theorem processResponse_unparsable_state:
  assumes "loaded = (if js_truthy requestState then requestState
                     else request_state_store c (settings c ''request_state_key''))"
  shows "(js_truthy loaded \<and> JSON_parse loaded = Inl SyntaxError \<longrightarrow>
            fst (processResponseAsync E result requestState c) = Inl SyntaxError)
       \<and> (\<not> js_truthy loaded \<or> (\<exists>v. JSON_parse loaded = Inr v \<and> \<not> js_truthy v) \<longrightarrow>
            fst (processResponseAsync E result requestState c) = Inl (Failure ''No request state loaded''))"
proof (cases "js_truthy requestState")
  case True
  then show ?thesis
    using assms
    by (auto simp: processResponseAsync_explicit process_with_state_unparsable
        process_with_state_falsy_value)
next
  case False
  then show ?thesis
    using assms
    by (auto simp: processResponseAsync_stored process_with_state_unparsable
        process_with_state_falsy_value process_with_state_missing)
qed

theorem processResponse_unparsable_state_witness:
  "js_truthy (JStr ''{'') \<and> JSON_parse (JStr ''{'') = Inl SyntaxError
   \<and> fst (processResponseAsync idp_env callback (JStr ''{'') app_client) = Inl SyntaxError
   \<and> \<not> js_truthy (request_state_store fresh_client (settings fresh_client ''request_state_key''))
   \<and> fst (processResponseAsync idp_env callback JUndefined fresh_client)
        = Inl (Failure ''No request state loaded'')"
proof -
  have t: "js_truthy (JStr ''{'')" by simp
  have f: "\<not> js_truthy (request_state_store fresh_client (settings fresh_client ''request_state_key''))"
    by (simp add: fresh_client_def)
  have a: "fst (processResponseAsync idp_env callback (JStr ''{'') app_client) = Inl SyntaxError"
    using processResponse_unparsable_state [of "JStr ''{''" "JStr ''{''" app_client idp_env callback]
      t parse_open_brace by simp
  have b: "fst (processResponseAsync idp_env callback JUndefined fresh_client)
        = Inl (Failure ''No request state loaded'')"
    using processResponse_unparsable_state
      [of "request_state_store fresh_client (settings fresh_client ''request_state_key'')"
          JUndefined fresh_client idp_env callback] f
    by simp
  show ?thesis using t parse_open_brace a f b by (intro conjI)
qed

subsection \<open>C10: the default response type and the flow flags\<close>

text \<open>
  Claim C10. When the configuration gives no response type, the constructor sets it to
  \<^verbatim>\<open>id_token token\<close>, and for the client so built \<^verbatim>\<open>isOidc\<close> and \<^verbatim>\<open>isOauth\<close>
  both hold. For a response type that is a non-empty string the two flags say whether
  \<^verbatim>\<open>id_token\<close>, respectively \<^verbatim>\<open>token\<close>, is one of the pieces between its white
  space; the response type \<^verbatim>\<open>id_token2\<close> has neither.
\<close>

theorem response_type_default_flags:
  "(OidcClient cfg = Inr s \<and> \<not> js_truthy (cfg ''response_type'') \<longrightarrow>
      s ''response_type'' = JStr ''id_token token'' \<and> isOidc s = Inr True \<and> isOauth s = Inr True)
   \<and> (t ''response_type'' = JStr rt \<and> rt \<noteq> [] \<longrightarrow>
        isOidc t = Inr (''id_token'' \<in> set (split_ws rt)) \<and> isOauth t = Inr (''token'' \<in> set (split_ws rt)))
   \<and> (u ''response_type'' = JStr ''id_token2'' \<longrightarrow> isOidc u = Inr False \<and> isOauth u = Inr False)"
proof (intro conjI impI)
  assume a: "OidcClient cfg = Inr s \<and> \<not> js_truthy (cfg ''response_type'')"
  then show rt: "s ''response_type'' = JStr ''id_token token''"
    using OidcClient_response_type [of cfg s] by simp
  show "isOidc s = Inr True"
    using isOidc_string [of s "''id_token token''"] rt by (simp add: split_ws_default)
  show "isOauth s = Inr True"
    using isOauth_string [of s "''id_token token''"] rt by (simp add: split_ws_default)
next
  assume "t ''response_type'' = JStr rt \<and> rt \<noteq> []"
  then show "isOidc t = Inr (''id_token'' \<in> set (split_ws rt))"
    and "isOauth t = Inr (''token'' \<in> set (split_ws rt))"
    by (simp_all add: isOidc_string isOauth_string)
next
  assume a: "u ''response_type'' = JStr ''id_token2''"
  show "isOidc u = Inr False"
    using isOidc_string [of u "''id_token2''"] a by (simp add: split_ws_id_token2)
  show "isOauth u = Inr False"
    using isOauth_string [of u "''id_token2''"] a by (simp add: split_ws_id_token2)
qed

theorem response_type_default_flags_witness:
  "(\<exists>s. OidcClient minimal_settings = Inr s \<and> \<not> js_truthy (minimal_settings ''response_type'')
        \<and> s ''response_type'' = JStr ''id_token token'' \<and> isOidc s = Inr True \<and> isOauth s = Inr True)
   \<and> code_flow_settings ''response_type'' = JStr ''code  id_token''
   \<and> isOidc code_flow_settings = Inr (''id_token'' \<in> set (split_ws ''code  id_token''))
   \<and> isOauth code_flow_settings = Inr (''token'' \<in> set (split_ws ''code  id_token''))
   \<and> id_token2_settings ''response_type'' = JStr ''id_token2''
   \<and> isOidc id_token2_settings = Inr False \<and> isOauth id_token2_settings = Inr False"
proof -
  obtain s where s: "OidcClient minimal_settings = Inr s"
    by (simp add: OidcClient_def minimal_settings_def default_authority_def bind_result_def Let_def)
  have f: "\<not> js_truthy (minimal_settings ''response_type'')"
    by (simp add: minimal_settings_def)
  have t: "code_flow_settings ''response_type'' = JStr ''code  id_token''"
    by (simp add: code_flow_settings_def)
  have u: "id_token2_settings ''response_type'' = JStr ''id_token2''"
    by (simp add: id_token2_settings_def)
  show ?thesis
    using response_type_default_flags
      [of minimal_settings s code_flow_settings "''code  id_token''" id_token2_settings] s f t u
    by auto
qed

subsection \<open>C8: the order of the request parameters\<close>

text \<open>
  Claim C8. When the authorization endpoint resolves and the response type is a string
  or not set, building the request succeeds and its URL is the one the specification
  words: the endpoint, then \<^verbatim>\<open>state\<close>, then \<^verbatim>\<open>nonce\<close> exactly when the response type
  includes the token \<^verbatim>\<open>id_token\<close>, then \<^verbatim>\<open>client_id\<close>, \<^verbatim>\<open>redirect_uri\<close>,
  \<^verbatim>\<open>response_type\<close>, \<^verbatim>\<open>scope\<close>, \<^verbatim>\<open>prompt\<close>, \<^verbatim>\<open>display\<close>, \<^verbatim>\<open>max_age\<close>,
  \<^verbatim>\<open>ui_locales\<close>, \<^verbatim>\<open>id_token_hint\<close>, \<^verbatim>\<open>login_hint\<close>, \<^verbatim>\<open>acr_values\<close>,
  \<^verbatim>\<open>response_mode\<close>, each of the twelve exactly when its setting is non-empty (truthy).
  Every value is percent-encoded: what \<^verbatim>\<open>encodeURIComponent\<close> returns holds unreserved
  characters and \<^verbatim>\<open>%XX\<close> escapes only.
\<close>

theorem createTokenRequest_url_order:
  assumes "loadAuthorizationEndpoint E c = (Inr endpoint, c1)"
      and "isOidc (settings c) = Inr oidc"
  shows "(\<exists>request c'. createTokenRequestAsync E rand1 rand2 c = (Inr request, c')
            \<and> get_prop request ''url''
                = Inr (JStr (spec_authorization_url (ToString endpoint) rand1 rand2 (settings c))))
       \<and> oidc = includes_token (settings c ''response_type'') ''id_token''
       \<and> (\<forall>v. percent_encoded (encodeURIComponent v))"
  using createTokenRequestAsync_url [OF assms] isOidc_includes [OF assms(2)]
    percent_encoded_encodeURIComponent
  by blast

theorem createTokenRequest_url_order_witness:
  "loadAuthorizationEndpoint idp_env app_client = (Inr (JStr ''https://idp.example/authorize''), app_client)
   \<and> isOidc (settings app_client) = Inr True
   \<and> (\<exists>request c'. createTokenRequestAsync idp_env ''s-1'' ''n 1'' app_client = (Inr request, c')
         \<and> get_prop request ''url''
             = Inr (JStr (spec_authorization_url ''https://idp.example/authorize'' ''s-1'' ''n 1''
                            (settings app_client))))
   \<and> spec_authorization_url ''https://idp.example/authorize'' ''s-1'' ''n 1'' app_settings
        = ''https://idp.example/authorize?state=s-1&nonce=n%201&client_id=app&redirect_uri=https%3A%2F%2Fapp.example%2Fcb&response_type=id_token%20token&scope=openid%20profile&max_age=3600''"
proof -
  have ep: "loadAuthorizationEndpoint idp_env app_client
              = (Inr (JStr ''https://idp.example/authorize''), app_client)"
    by (simp add: loadAuthorizationEndpoint_def app_client_def app_settings_values resolve_def)
  have oidc: "isOidc (settings app_client) = Inr True"
    using isOidc_string [of "settings app_client" "''id_token token''"]
    by (simp add: app_client_def app_settings_values split_ws_default)
  have url: "spec_authorization_url ''https://idp.example/authorize'' ''s-1'' ''n 1'' app_settings
        = ''https://idp.example/authorize?state=s-1&nonce=n%201&client_id=app&redirect_uri=https%3A%2F%2Fapp.example%2Fcb&response_type=id_token%20token&scope=openid%20profile&max_age=3600''"
    unfolding app_settings_def idp_metadata_def idp_jwks_def rsa_key_def by code_simp
  have "\<exists>request c'. createTokenRequestAsync idp_env ''s-1'' ''n 1'' app_client = (Inr request, c')
         \<and> get_prop request ''url''
             = Inr (JStr (spec_authorization_url ''https://idp.example/authorize'' ''s-1'' ''n 1''
                            (settings app_client)))"
    using createTokenRequest_url_order [OF ep oidc, of "''s-1''" "''n 1''"] by simp
  then show ?thesis using ep oidc url by (intro conjI)
qed

subsection \<open>C5: which signing key is selected\<close>

text \<open>
  Claim C5 says that the first key that is an RSA key with a non-empty certificate chain
  is selected, so that a key set with another key first and such a key later resolves to
  the later key's first certificate. The source looks at \<^verbatim>\<open>keys[0]\<close> only. Here the
  cached key set holds an EC key and then an RSA key with the certificate \<^verbatim>\<open>MIIC\<close>.
\<close>

theorem loadX509SigningKey_later_key_counterexample:
  "js_truthy (settings mixed_client ''jwks'')
   \<and> get_prop (settings mixed_client ''jwks'') ''keys'' = Inr (JArr [ec_key, rsa_key])
   \<and> get_prop ec_key ''kty'' = Inr (JStr ''EC'')
   \<and> get_prop rsa_key ''kty'' = Inr (JStr ''RSA'')
   \<and> get_prop rsa_key ''x5c'' = Inr (JArr [JStr ''MIIC''])
   \<and> fst (loadX509SigningKeyAsync idp_env mixed_client) = Inl (Failure ''Signing key not RSA'')
   \<and> fst (loadX509SigningKeyAsync idp_env mixed_client) \<noteq> Inr (JStr ''MIIC'')"
proof -
  have j: "settings mixed_client ''jwks'' = mixed_jwks"
    by (simp add: mixed_client_def)
  have t: "js_truthy (settings mixed_client ''jwks'')"
    by (simp add: j mixed_jwks_def)
  have k: "get_prop mixed_jwks ''keys'' = Inr (JArr [ec_key, rsa_key])"
    by (simp add: mixed_jwks_def)
  have e: "get_prop ec_key ''kty'' = Inr (JStr ''EC'')"
    and r: "get_prop rsa_key ''kty'' = Inr (JStr ''RSA'')"
    and x: "get_prop rsa_key ''x5c'' = Inr (JArr [JStr ''MIIC''])"
    by (simp_all add: ec_key_def rsa_key_def)
  have u: "key_set_in_use idp_env mixed_client mixed_jwks mixed_client"
    using t j by (simp add: key_set_in_use_def)
  have "loadX509SigningKeyAsync idp_env mixed_client
          = (Inl (Failure ''Signing key not RSA''), mixed_client)"
    using loadX509SigningKeyAsync_key_set [OF u] getKeyAsync_not_RSA [OF k e] by simp
  then show ?thesis using t k e r x j by simp
qed

text \<open>
  Claim C5, amended. Resolving the signing key inspects the first key of the key set in
  use and no other. When its \<^verbatim>\<open>kty\<close> is not \<^verbatim>\<open>RSA\<close> the resolution fails with
  \<^verbatim>\<open>Signing key not RSA\<close>, whatever else the key holds and whatever keys follow.
  When it is an RSA key the resolution returns the first certificate of its chain
  \<^verbatim>\<open>x5c\<close>, and fails with \<^verbatim>\<open>RSA keys empty\<close> when the chain is missing or empty.
\<close>

theorem loadX509SigningKey_first_key_only:
  assumes "key_set_in_use E c jwks c'"
      and "get_prop jwks ''keys'' = Inr (JArr (key # rest))"
      and "get_prop key ''kty'' = Inr kty"
  shows "(kty \<noteq> JStr ''RSA'' \<longrightarrow>
            fst (loadX509SigningKeyAsync E c) = Inl (Failure ''Signing key not RSA''))
       \<and> (kty = JStr ''RSA'' \<longrightarrow>
            (\<exists>x5c. get_prop key ''x5c'' = Inr x5c
               \<and> (\<not> js_truthy x5c \<or> x5c = JArr [] \<longrightarrow>
                    fst (loadX509SigningKeyAsync E c) = Inl (Failure ''RSA keys empty''))
               \<and> (\<forall>cert others. x5c = JArr (cert # others) \<longrightarrow>
                    fst (loadX509SigningKeyAsync E c) = Inr cert)))"
proof (intro conjI impI)
  assume "kty \<noteq> JStr ''RSA''"
  then show "fst (loadX509SigningKeyAsync E c) = Inl (Failure ''Signing key not RSA'')"
    using loadX509SigningKeyAsync_key_set [OF assms(1)] getKeyAsync_not_RSA [OF assms(2,3)]
    by simp
next
  assume rsa: "kty = JStr ''RSA''"
  obtain x5c where x: "get_prop key ''x5c'' = Inr x5c"
    using get_prop_defined [OF assms(3)] by blast
  have k: "get_prop key ''kty'' = Inr (JStr ''RSA'')"
    using assms(3) rsa by simp
  have "fst (loadX509SigningKeyAsync E c) = Inl (Failure ''RSA keys empty'')"
    if "\<not> js_truthy x5c \<or> x5c = JArr []"
    using loadX509SigningKeyAsync_key_set [OF assms(1)] getKeyAsync_no_chain [OF assms(2) k x that]
    by simp
  moreover have "fst (loadX509SigningKeyAsync E c) = Inr cert" if "x5c = JArr (cert # others)"
    for cert others
    using loadX509SigningKeyAsync_key_set [OF assms(1)]
      getKeyAsync_first_key [OF assms(2) k, of "cert # others"] x that
    by simp
  ultimately show "\<exists>x5c. get_prop key ''x5c'' = Inr x5c
               \<and> (\<not> js_truthy x5c \<or> x5c = JArr [] \<longrightarrow>
                    fst (loadX509SigningKeyAsync E c) = Inl (Failure ''RSA keys empty''))
               \<and> (\<forall>cert others. x5c = JArr (cert # others) \<longrightarrow>
                    fst (loadX509SigningKeyAsync E c) = Inr cert)"
    using x by blast
qed

theorem loadX509SigningKey_first_key_only_witness:
  "key_set_in_use idp_env mixed_client mixed_jwks mixed_client
   \<and> get_prop mixed_jwks ''keys'' = Inr (JArr [ec_key, rsa_key])
   \<and> get_prop ec_key ''kty'' = Inr (JStr ''EC'') \<and> JStr ''EC'' \<noteq> JStr ''RSA''
   \<and> get_prop ec_key ''x5c'' = Inr JUndefined
   \<and> fst (loadX509SigningKeyAsync idp_env mixed_client) = Inl (Failure ''Signing key not RSA'')
   \<and> key_set_in_use idp_env unchained_client unchained_jwks unchained_client
   \<and> get_prop unchained_jwks ''keys'' = Inr (JArr [unchained_key, rsa_key])
   \<and> get_prop unchained_key ''kty'' = Inr (JStr ''RSA'')
   \<and> get_prop unchained_key ''x5c'' = Inr JUndefined \<and> \<not> js_truthy JUndefined
   \<and> fst (loadX509SigningKeyAsync idp_env unchained_client) = Inl (Failure ''RSA keys empty'')
   \<and> key_set_in_use idp_env app_client idp_jwks app_client
   \<and> get_prop idp_jwks ''keys'' = Inr (JArr [rsa_key])
   \<and> get_prop rsa_key ''kty'' = Inr (JStr ''RSA'')
   \<and> get_prop rsa_key ''x5c'' = Inr (JArr [JStr ''MIIC''])
   \<and> fst (loadX509SigningKeyAsync idp_env app_client) = Inr (JStr ''MIIC'')"
proof -
  have u1: "key_set_in_use idp_env mixed_client mixed_jwks mixed_client"
    by (simp add: key_set_in_use_def mixed_client_def mixed_jwks_def)
  have k1: "get_prop mixed_jwks ''keys'' = Inr (JArr [ec_key, rsa_key])"
    by (simp add: mixed_jwks_def)
  have t1: "get_prop ec_key ''kty'' = Inr (JStr ''EC'')" and n1: "JStr ''EC'' \<noteq> JStr ''RSA''"
    and x1: "get_prop ec_key ''x5c'' = Inr JUndefined"
    by (simp_all add: ec_key_def)
  have u2: "key_set_in_use idp_env unchained_client unchained_jwks unchained_client"
    by (simp add: key_set_in_use_def unchained_client_def unchained_jwks_def)
  have k2: "get_prop unchained_jwks ''keys'' = Inr (JArr [unchained_key, rsa_key])"
    by (simp add: unchained_jwks_def)
  have t2: "get_prop unchained_key ''kty'' = Inr (JStr ''RSA'')"
    and x2: "get_prop unchained_key ''x5c'' = Inr JUndefined" and f2: "\<not> js_truthy JUndefined"
    by (simp_all add: unchained_key_def)
  have u3: "key_set_in_use idp_env app_client idp_jwks app_client"
    by (simp add: key_set_in_use_def app_client_def app_settings_values idp_jwks_def)
  have k3: "get_prop idp_jwks ''keys'' = Inr (JArr [rsa_key])"
    by (simp add: idp_jwks_def)
  have t3: "get_prop rsa_key ''kty'' = Inr (JStr ''RSA'')"
    and x3: "get_prop rsa_key ''x5c'' = Inr (JArr [JStr ''MIIC''])"
    by (simp_all add: rsa_key_def)
  have a: "fst (loadX509SigningKeyAsync idp_env mixed_client) = Inl (Failure ''Signing key not RSA'')"
    using loadX509SigningKey_first_key_only [OF u1 k1 t1] n1 by blast
  have b: "fst (loadX509SigningKeyAsync idp_env unchained_client) = Inl (Failure ''RSA keys empty'')"
    using loadX509SigningKey_first_key_only [OF u2 k2 t2] x2 f2 by auto
  have c: "fst (loadX509SigningKeyAsync idp_env app_client) = Inr (JStr ''MIIC'')"
    using loadX509SigningKey_first_key_only [OF u3 k3 t3] x3 by auto
  show ?thesis
    using u1 k1 t1 n1 x1 a u2 k2 t2 x2 f2 b u3 k3 t3 x3 c by (intro conjI)
qed

subsection \<open>C4: the access token is bound by \<^verbatim>\<open>at_hash\<close>\<close>

text \<open>
  Claim C4. For every claims object and access token: the binding check fails with
  \<^verbatim>\<open>No at_hash in id_token\<close> when \<^verbatim>\<open>at_hash\<close> is absent (falsy); otherwise it
  succeeds exactly when the base64url form of the left half of the SHA-256 digest of the
  access token equals \<^verbatim>\<open>at_hash\<close>, and fails with \<^verbatim>\<open>at_hash failed to validate\<close>
  when it does not. The digest and the conversion are the collaborators' functions.
\<close>

theorem validateAccessToken_at_hash:
  assumes "get_prop claims ''at_hash'' = Inr at_hash"
  shows "fst (validateAccessTokenAsync E claims access_token c) =
           (if \<not> js_truthy at_hash then Inl (Failure ''No at_hash in id_token'')
            else if JStr (hextob64u E (take (length (sha256 E access_token) div 2) (sha256 E access_token)))
                    = at_hash
            then Inr ()
            else Inl (Failure ''at_hash failed to validate''))"
  using assms
  by (auto simp: validateAccessTokenAsync_def read_prop_def error_def reject_def utility_error_def
      resolve_def Let_def)

theorem validateAccessToken_at_hash_witness:
  "get_prop (JObj idp_claims) ''at_hash'' = Inr (JStr ''ungWv48Bz-pBQUDeXa4iIw'')
   \<and> fst (validateAccessTokenAsync idp_env (JObj idp_claims) (JStr ''abc'') app_client) = Inr ()
   \<and> fst (validateAccessTokenAsync idp_env (JObj idp_claims) (JStr ''abd'') app_client)
        = Inl (Failure ''at_hash failed to validate'')
   \<and> get_prop (JObj userinfo) ''at_hash'' = Inr JUndefined
   \<and> fst (validateAccessTokenAsync idp_env (JObj userinfo) (JStr ''abc'') app_client)
        = Inl (Failure ''No at_hash in id_token'')"
proof -
  have h: "get_prop (JObj idp_claims) ''at_hash'' = Inr (JStr ''ungWv48Bz-pBQUDeXa4iIw'')"
    by (rule idp_claims_props(6))
  have n: "get_prop (JObj userinfo) ''at_hash'' = Inr JUndefined"
    by (simp add: userinfo_def)
  have abc: "hextob64u idp_env (take (length (sha256 idp_env (JStr ''abc'')) div 2) (sha256 idp_env (JStr ''abc'')))
               = ''ungWv48Bz-pBQUDeXa4iIw''"
    by (simp add: idp_env_def)
  have abd: "hextob64u idp_env (take (length (sha256 idp_env (JStr ''abd'')) div 2) (sha256 idp_env (JStr ''abd'')))
               = ''pS0VnyYrLG3bckphhAvvww''"
    by (simp add: idp_env_def)
  have a: "fst (validateAccessTokenAsync idp_env (JObj idp_claims) (JStr ''abc'') app_client) = Inr ()"
    using validateAccessToken_at_hash [OF h, of idp_env "JStr ''abc''" app_client] by (simp add: abc)
  have b: "fst (validateAccessTokenAsync idp_env (JObj idp_claims) (JStr ''abd'') app_client)
        = Inl (Failure ''at_hash failed to validate'')"
    using validateAccessToken_at_hash [OF h, of idp_env "JStr ''abd''" app_client] by (simp add: abd)
  have m: "fst (validateAccessTokenAsync idp_env (JObj userinfo) (JStr ''abc'') app_client)
        = Inl (Failure ''No at_hash in id_token'')"
    using validateAccessToken_at_hash [OF n, of idp_env "JStr ''abc''" app_client] by simp
  show ?thesis using h a b n m by (intro conjI)
qed

subsection \<open>C3: the time window of an identity token\<close>

text \<open>
  Claim C3 says that a token whose signature, nonce, issuer and audience pass is
  rejected with \<^verbatim>\<open>Token expired\<close> exactly when \<^verbatim>\<open>exp < now\<close>. The source tests the
  age first, so a token that is both too old and expired is rejected with
  \<^verbatim>\<open>Token issued too long ago\<close>. Here the clock stands at 1700000100, the token was
  issued at 1699999799 (301 seconds earlier) and expired at 1700000099.
\<close>

theorem validateIdToken_expired_counterexample:
  "loadX509SigningKeyAsync idp_env app_client = (Inr (JStr ''MIIC''), app_client)
   \<and> verifyJWSByPemX509Cert idp_env (JStr ''header.stale.signature'') (JStr ''MIIC'') = Some stale_payload
   \<and> JSON_parse (JStr stale_payload) = Inr (JObj stale_claims)
   \<and> get_prop (JObj stale_claims) ''exp'' = Inr (JNum (Fin 1700000099))
   \<and> now_seconds idp_env = 1700000100 \<and> 1700000099 < now_seconds idp_env
   \<and> js_lt_num (JNum (Fin 1700000099)) (now_seconds idp_env)
   \<and> fst (validateIdTokenAsync idp_env (JStr ''header.stale.signature'') (JStr ''n-1'') JUndefined app_client)
        = Inl (Failure ''Token issued too long ago'')
   \<and> fst (validateIdTokenAsync idp_env (JStr ''header.stale.signature'') (JStr ''n-1'') JUndefined app_client)
        \<noteq> Inl (Failure ''Token expired'')"
proof -
  have s: "settings app_client = app_settings" by (simp add: app_client_def)
  have "fst (validateIdTokenAsync idp_env (JStr ''header.stale.signature'') (JStr ''n-1'') JUndefined app_client)
        = Inl (Failure ''Token issued too long ago'')"
    by (simp add: stale_validateIdToken [OF s])
  then show ?thesis
    using app_signing_key [OF s] idp_verify_stale parse_stale_payload stale_claims_props(5)
      expired_at_clock(2)
    by (simp add: now_idp_env)
qed

text \<open>
  Claim C3, amended. For every identity token whose signature, nonce, issuer and
  audience checks pass, with \<open>now\<close> the clock's time rounded to seconds: the
  verification is rejected with \<^verbatim>\<open>Token issued too long ago\<close> exactly when
  \<^verbatim>\<open>now - iat > 300\<close>, and with \<^verbatim>\<open>Token expired\<close> exactly when the token is not too
  old and \<^verbatim>\<open>exp < now\<close>. The difference and the two comparisons are those of the
  language, on whatever values the payload gives \<^verbatim>\<open>iat\<close> and \<^verbatim>\<open>exp\<close>; on
  integers they are those of arithmetic. So \<open>iat = now - 300\<close> and \<open>exp = now\<close> are
  accepted, \<open>iat = now - 301\<close> is too old, and \<open>exp = now - 1\<close> on a token that is not
  too old is expired.
\<close>

theorem validateIdToken_time_window:
  assumes "loadX509SigningKeyAsync E c = (Inr cert, c1)"
      and "verifyJWSByPemX509Cert E id_token cert = Some payloadS"
      and "JSON_parse (JStr payloadS) = Inr contents"
      and "get_prop contents ''nonce'' = Inr n" and "strict_eq nonce n"
      and "loadMetadataAsync E c1 = (Inr metadata, c2)"
      and "get_prop contents ''iss'' = Inr iss" and "get_prop metadata ''issuer'' = Inr issuer"
      and "strict_eq iss issuer"
      and "get_prop contents ''aud'' = Inr aud" and "strict_eq aud (settings c2 ''client_id'')"
      and "get_prop contents ''iat'' = Inr iat"
      and "get_prop contents ''exp'' = Inr expiry"
  shows "(fst (validateIdTokenAsync E id_token nonce access_token c)
            = Inl (Failure ''Token issued too long ago'')
          \<longleftrightarrow> num_gt (js_minus (JInt (now_seconds E)) iat) 300)
       \<and> (fst (validateIdTokenAsync E id_token nonce access_token c)
            = Inl (Failure ''Token expired'')
          \<longleftrightarrow> \<not> num_gt (js_minus (JInt (now_seconds E)) iat) 300
              \<and> js_lt_num expiry (now_seconds E))
       \<and> (\<forall>i. iat = JInt i \<and> \<bar>now_seconds E - i\<bar> \<le> 2 ^ 53 \<longrightarrow>
            (num_gt (js_minus (JInt (now_seconds E)) iat) 300 \<longleftrightarrow> now_seconds E - i > 300))
       \<and> (\<forall>x. expiry = JInt x \<longrightarrow> (js_lt_num expiry (now_seconds E) \<longleftrightarrow> x < now_seconds E))"
proof -
  let ?r = "validateIdTokenAsync E id_token nonce access_token c"
  let ?old = "num_gt (js_minus (JInt (now_seconds E)) iat) 300"
  let ?late = "js_lt_num expiry (now_seconds E)"
  have r: "?r = (if ?old then (Inl (Failure ''Token issued too long ago''), c2)
            else if ?late then (Inl (Failure ''Token expired''), c2)
            else if js_truthy access_token \<and> js_truthy (settings c2 ''load_user_profile'')
            then then_do (loadUserProfile E access_token) (merge_profile contents) c2
            else (Inr contents, c2))"
    using validateIdTokenAsync_verified [OF assms(1-6)] validate_claims_checked [OF assms(7-13)]
    by simp
  have ints: "(\<forall>i. iat = JInt i \<and> \<bar>now_seconds E - i\<bar> \<le> 2 ^ 53 \<longrightarrow>
            (?old \<longleftrightarrow> now_seconds E - i > 300))
       \<and> (\<forall>x. expiry = JInt x \<longrightarrow> (?late \<longleftrightarrow> x < now_seconds E))"
    by (auto simp only: js_minus_integers num_gt_integer js_lt_num_integer)
  have "(fst ?r = Inl (Failure ''Token issued too long ago'') \<longleftrightarrow> ?old)
      \<and> (fst ?r = Inl (Failure ''Token expired'') \<longleftrightarrow> \<not> ?old \<and> ?late)"
  proof (cases ?old)
    case True
    then show ?thesis using r by simp
  next
    case fresh: False
    show ?thesis
    proof (cases ?late)
      case True
      then show ?thesis using r fresh by simp
    next
      case valid: False
      show ?thesis
      proof (cases "js_truthy access_token \<and> js_truthy (settings c2 ''load_user_profile'')")
        case False
        then show ?thesis using r fresh valid by auto
      next
        case True
        then have p: "?r = then_do (loadUserProfile E access_token) (merge_profile contents) c2"
          using r fresh valid by simp
        obtain x c3 where x: "then_do (loadUserProfile E access_token) (merge_profile contents) c2 = (x, c3)"
          by (cases "then_do (loadUserProfile E access_token) (merge_profile contents) c2")
        have "x \<noteq> Inl (Failure ''Token issued too long ago'') \<and> x \<noteq> Inl (Failure ''Token expired'')"
          using profile_step_failures [of E access_token contents c2 _ c3] x by (cases x) auto
        then show ?thesis using p x fresh valid by simp
      qed
    qed
  qed
  then show ?thesis using ints by (intro conjI) blast+
qed

theorem validateIdToken_time_window_witness:
  "loadX509SigningKeyAsync idp_env app_client = (Inr (JStr ''MIIC''), app_client)
   \<and> loadMetadataAsync idp_env app_client = (Inr idp_metadata, app_client)
   \<and> now_seconds idp_env = 1700000100
   \<and> JSON_parse (JStr idp_payload) = Inr (JObj idp_claims)
   \<and> get_prop (JObj idp_claims) ''iat'' = Inr (JNum (Fin 1699999800))
   \<and> get_prop (JObj idp_claims) ''exp'' = Inr (JNum (Fin 1700000100))
   \<and> fst (validateIdTokenAsync idp_env (JStr ''header.payload.signature'') (JStr ''n-1'') (JStr ''abc'') app_client)
        \<noteq> Inl (Failure ''Token issued too long ago'')
   \<and> fst (validateIdTokenAsync idp_env (JStr ''header.payload.signature'') (JStr ''n-1'') (JStr ''abc'') app_client)
        \<noteq> Inl (Failure ''Token expired'')
   \<and> JSON_parse (JStr stale_payload) = Inr (JObj stale_claims)
   \<and> get_prop (JObj stale_claims) ''iat'' = Inr (JNum (Fin 1699999799))
   \<and> fst (validateIdTokenAsync idp_env (JStr ''header.stale.signature'') (JStr ''n-1'') (JStr ''abc'') app_client)
        = Inl (Failure ''Token issued too long ago'')
   \<and> JSON_parse (JStr expired_payload) = Inr (JObj expired_claims)
   \<and> get_prop (JObj expired_claims) ''iat'' = Inr (JNum (Fin 1699999800))
   \<and> get_prop (JObj expired_claims) ''exp'' = Inr (JNum (Fin 1700000099))
   \<and> fst (validateIdTokenAsync idp_env (JStr ''header.expired.signature'') (JStr ''n-1'') (JStr ''abc'') app_client)
        = Inl (Failure ''Token expired'')
   \<and> JSON_parse (JStr early_payload) = Inr (JObj early_claims)
   \<and> get_prop (JObj early_claims) ''iat'' = Inr (JNum (Fin 1699999799.5))
   \<and> get_prop (JObj early_claims) ''exp'' = Inr (JStr ''1700000100'')
   \<and> fst (validateIdTokenAsync idp_env (JStr ''header.early.signature'') (JStr ''n-1'') (JStr ''abc'') app_client)
        = Inl (Failure ''Token issued too long ago'')"
proof -
  have s: "settings app_client = app_settings" by (simp add: app_client_def)
  have e1: "strict_eq (JStr ''n-1'') (JStr ''n-1'')"
    and e2: "strict_eq (JStr ''https://idp.example'') (JStr ''https://idp.example'')"
    and e3: "strict_eq (JStr ''app'') (settings app_client ''client_id'')"
    by (simp_all add: s app_settings_values)
  note key = app_signing_key [OF s] and meta = app_metadata [OF s]
  note w1 = validateIdToken_time_window
    [OF key idp_verify parse_idp_payload idp_claims_props(1) e1 meta
        idp_claims_props(2) idp_issuer e2 idp_claims_props(3) e3 idp_claims_props(4,5),
      of "JStr ''abc''", unfolded now_idp_env]
  note w2 = validateIdToken_time_window
    [OF key idp_verify_stale parse_stale_payload stale_claims_props(1) e1 meta
        stale_claims_props(2) idp_issuer e2 stale_claims_props(3) e3 stale_claims_props(4,5),
      of "JStr ''abc''", unfolded now_idp_env]
  note w3 = validateIdToken_time_window
    [OF key idp_verify_expired parse_expired_payload expired_claims_props(1) e1 meta
        expired_claims_props(2) idp_issuer e2 expired_claims_props(3) e3 expired_claims_props(4,5),
      of "JStr ''abc''", unfolded now_idp_env]
  note w4 = validateIdToken_time_window
    [OF key idp_verify_early parse_early_payload early_claims_props(1) e1 meta
        early_claims_props(2) idp_issuer e2 early_claims_props(3) e3 early_claims_props(4,5),
      of "JStr ''abc''", unfolded now_idp_env]
  have a1: "fst (validateIdTokenAsync idp_env (JStr ''header.payload.signature'') (JStr ''n-1'') (JStr ''abc'') app_client)
        \<noteq> Inl (Failure ''Token issued too long ago'')"
    using w1 too_old_at_clock(1) by blast
  have a2: "fst (validateIdTokenAsync idp_env (JStr ''header.payload.signature'') (JStr ''n-1'') (JStr ''abc'') app_client)
        \<noteq> Inl (Failure ''Token expired'')"
    using w1 expired_at_clock(1) by blast
  have b: "fst (validateIdTokenAsync idp_env (JStr ''header.stale.signature'') (JStr ''n-1'') (JStr ''abc'') app_client)
        = Inl (Failure ''Token issued too long ago'')"
    using w2 too_old_at_clock(2) by blast
  have c: "fst (validateIdTokenAsync idp_env (JStr ''header.expired.signature'') (JStr ''n-1'') (JStr ''abc'') app_client)
        = Inl (Failure ''Token expired'')"
    using w3 too_old_at_clock(1) expired_at_clock(2) by blast
  have d: "fst (validateIdTokenAsync idp_env (JStr ''header.early.signature'') (JStr ''n-1'') (JStr ''abc'') app_client)
        = Inl (Failure ''Token issued too long ago'')"
    using w4 too_old_at_clock(3) by blast
  show ?thesis
    using key meta now_idp_env parse_idp_payload idp_claims_props(4,5) a1 a2
      parse_stale_payload stale_claims_props(4) b
      parse_expired_payload expired_claims_props(4,5) c
      parse_early_payload early_claims_props(4,5) d
    by (intro conjI)
qed

subsection \<open>C9: the user profile and an HTTP response in its place\<close>

text \<open>
  Claim C9. Let an identity token pass every check of the verification, with an access
  token supplied and profile loading enabled, and let the user-info call return a value.
  When the value carries a status code (a truthy \<^verbatim>\<open>statusCode\<close>, as an HTTP response
  does), the verification succeeds with a copy of the token's claims alone and no
  failure. Otherwise it succeeds with the value merged over the token's claims: every
  key of the user-info claims has the user-info value, every other key the token's.
  An object is taken to name each of its keys once.
\<close>

theorem validateIdToken_profile_merge:
  assumes "loadX509SigningKeyAsync E c = (Inr cert, c1)"
      and "verifyJWSByPemX509Cert E id_token cert = Some payloadS"
      and "JSON_parse (JStr payloadS) = Inr (JObj claims)" and "distinct (map fst claims)"
      and "get_prop (JObj claims) ''nonce'' = Inr n" and "strict_eq nonce n"
      and "loadMetadataAsync E c1 = (Inr metadata, c2)"
      and "get_prop (JObj claims) ''iss'' = Inr iss" and "get_prop metadata ''issuer'' = Inr issuer"
      and "strict_eq iss issuer"
      and "get_prop (JObj claims) ''aud'' = Inr aud" and "strict_eq aud (settings c2 ''client_id'')"
      and "get_prop (JObj claims) ''iat'' = Inr iat"
      and "\<not> num_gt (js_minus (JInt (now_seconds E)) iat) 300"
      and "get_prop (JObj claims) ''exp'' = Inr expiry"
      and "\<not> js_lt_num expiry (now_seconds E)"
      and "js_truthy access_token" and "js_truthy (settings c2 ''load_user_profile'')"
      and "loadUserProfile E access_token c2 = (Inr profile, c3)"
      and "get_prop profile ''statusCode'' = Inr statusCode"
  shows "(js_truthy statusCode \<longrightarrow>
            fst (validateIdTokenAsync E id_token nonce access_token c) = Inr (JObj claims))
       \<and> (\<not> js_truthy statusCode \<longrightarrow>
            fst (validateIdTokenAsync E id_token nonce access_token c)
              = Inr (utility_copy profile (JObj claims))
            \<and> (\<forall>entries. profile = JObj entries \<and> distinct (map fst entries) \<longrightarrow>
                 (\<exists>merged. utility_copy profile (JObj claims) = JObj merged
                    \<and> (\<forall>k. map_of merged k
                          = (case map_of entries k of Some v \<Rightarrow> Some v | None \<Rightarrow> map_of claims k)))))"
proof -
  have "validateIdTokenAsync E id_token nonce access_token c
          = then_do (loadUserProfile E access_token) (merge_profile (JObj claims)) c2"
    using validateIdTokenAsync_verified [OF assms(1,2,3,5,6,7)]
      validate_claims_checked [OF assms(8-13) assms(15)] assms(14,16,17,18)
    by simp
  then have r: "fst (validateIdTokenAsync E id_token nonce access_token c)
          = Inr (if js_truthy statusCode then utility_copy (JObj claims) JUndefined
                 else utility_copy profile (JObj claims))"
    using assms(19,20) by (simp add: then_do_def merge_profile_def read_prop_def resolve_def)
  show ?thesis
    using r utility_copy_alone [OF assms(4)] utility_copy_merge [of _ claims]
    by auto
qed

theorem validateIdToken_profile_merge_witness:
  "loadUserProfile idp_env (JStr ''revoked'') app_client = (Inr http_response, app_client)
   \<and> get_prop http_response ''statusCode'' = Inr (JNum (Fin 401)) \<and> js_truthy (JNum (Fin 401))
   \<and> fst (validateIdTokenAsync idp_env (JStr ''header.payload.signature'') (JStr ''n-1'')
            (JStr ''revoked'') app_client) = Inr (JObj idp_claims)
   \<and> loadUserProfile idp_env (JStr ''abc'') app_client = (Inr (JObj userinfo), app_client)
   \<and> get_prop (JObj userinfo) ''statusCode'' = Inr JUndefined \<and> \<not> js_truthy JUndefined
   \<and> fst (validateIdTokenAsync idp_env (JStr ''header.payload.signature'') (JStr ''n-1'')
            (JStr ''abc'') app_client) = Inr (utility_copy (JObj userinfo) (JObj idp_claims))
   \<and> utility_copy (JObj userinfo) (JObj idp_claims)
        = JObj [(''iss'', JStr ''https://idp.example''), (''aud'', JStr ''app''),
                (''iat'', JNum (Fin 1699999800)), (''nbf'', JNum (Fin 1699999800)),
                (''exp'', JNum (Fin 1700000100)), (''nonce'', JStr ''n-1''),
                (''at_hash'', JStr ''ungWv48Bz-pBQUDeXa4iIw''), (''idp'', JStr ''idsrv''),
                (''sub'', JStr ''alice@idp''), (''name'', JStr ''Alice'')]"
proof -
  have s: "settings app_client = app_settings" by (simp add: app_client_def)
  have d: "distinct (map fst idp_claims)" by (simp add: idp_claims_def)
  have e1: "strict_eq (JStr ''n-1'') (JStr ''n-1'')"
    and e2: "strict_eq (JStr ''https://idp.example'') (JStr ''https://idp.example'')"
    and e3: "strict_eq (JStr ''app'') (settings app_client ''client_id'')"
    and lp: "js_truthy (settings app_client ''load_user_profile'')"
    by (simp_all add: s app_settings_values)
  have fresh: "\<not> num_gt (js_minus (JInt (now_seconds idp_env)) (JNum (Fin 1699999800))) 300"
    unfolding now_idp_env by (rule too_old_at_clock(1))
  have valid: "\<not> js_lt_num (JNum (Fin 1700000100)) (now_seconds idp_env)"
    unfolding now_idp_env by (rule expired_at_clock(1))
  have t1: "js_truthy (JStr ''revoked'')" and t2: "js_truthy (JStr ''abc'')" by simp_all
  have ep: "get_prop idp_metadata ''userinfo_endpoint'' = Inr (JStr ''https://idp.example/userinfo'')"
    by (simp add: idp_metadata_def)
  have p1: "loadUserProfile idp_env (JStr ''revoked'') app_client = (Inr http_response, app_client)"
    using app_metadata [OF s] ep
    by (simp add: loadUserProfile_def then_do_def read_prop_def resolve_def idp_env_def)
  have p2: "loadUserProfile idp_env (JStr ''abc'') app_client = (Inr (JObj userinfo), app_client)"
    using app_metadata [OF s] ep
    by (simp add: loadUserProfile_def then_do_def read_prop_def resolve_def idp_env_def)
  have c1: "get_prop http_response ''statusCode'' = Inr (JNum (Fin 401))"
    by (simp add: http_response_def)
  have c2: "get_prop (JObj userinfo) ''statusCode'' = Inr JUndefined"
    by (simp add: userinfo_def)
  have k1: "js_truthy (JNum (Fin 401))" and k2: "\<not> js_truthy JUndefined" by simp_all
  note w1 = validateIdToken_profile_merge
    [OF app_signing_key [OF s] idp_verify parse_idp_payload d idp_claims_props(1) e1
        app_metadata [OF s] idp_claims_props(2) idp_issuer e2 idp_claims_props(3) e3
        idp_claims_props(4) fresh idp_claims_props(5) valid t1 lp p1 c1]
  note w2 = validateIdToken_profile_merge
    [OF app_signing_key [OF s] idp_verify parse_idp_payload d idp_claims_props(1) e1
        app_metadata [OF s] idp_claims_props(2) idp_issuer e2 idp_claims_props(3) e3
        idp_claims_props(4) fresh idp_claims_props(5) valid t2 lp p2 c2]
  have a: "fst (validateIdTokenAsync idp_env (JStr ''header.payload.signature'') (JStr ''n-1'')
            (JStr ''revoked'') app_client) = Inr (JObj idp_claims)"
    using w1 k1 by blast
  have b: "fst (validateIdTokenAsync idp_env (JStr ''header.payload.signature'') (JStr ''n-1'')
            (JStr ''abc'') app_client) = Inr (utility_copy (JObj userinfo) (JObj idp_claims))"
    using w2 k2 by blast
  have m: "utility_copy (JObj userinfo) (JObj idp_claims)
        = JObj [(''iss'', JStr ''https://idp.example''), (''aud'', JStr ''app''),
                (''iat'', JNum (Fin 1699999800)), (''nbf'', JNum (Fin 1699999800)),
                (''exp'', JNum (Fin 1700000100)), (''nonce'', JStr ''n-1''),
                (''at_hash'', JStr ''ungWv48Bz-pBQUDeXa4iIw''), (''idp'', JStr ''idsrv''),
                (''sub'', JStr ''alice@idp''), (''name'', JStr ''Alice'')]"
    by (simp add: utility_copy_def userinfo_def idp_claims_def)
  show ?thesis using p1 c1 k1 a p2 c2 k2 b m by (intro conjI)
qed

subsection \<open>C7: the protocol claims are filtered from the profile\<close>

text \<open>
  Claim C7. When a call of the response processor succeeds with claim filtering
  enabled, the profile of the session it returns is the result of the verification the
  flow flags selected, with the protocol claims removed: for a claims object the
  profile has none of the keys \<^verbatim>\<open>nonce\<close>, \<^verbatim>\<open>at_hash\<close>, \<^verbatim>\<open>iat\<close>, \<^verbatim>\<open>nbf\<close>,
  \<^verbatim>\<open>exp\<close>, \<^verbatim>\<open>aud\<close>, \<^verbatim>\<open>iss\<close>, \<^verbatim>\<open>idp\<close>, and has every other key with the
  value the verified claims give it. Without verified claims the profile is absent.
\<close>

theorem processResponse_filters_protocol_claims:
  assumes "processResponseAsync E result requestState c = (Inr session, c')"
      and "js_truthy (settings c ''filter_protocol_claims'')"
  shows "\<exists>request_state c1 claims.
           JSON_parse (if js_truthy requestState then requestState
                       else request_state_store c (settings c ''request_state_key'')) = Inr request_state
         \<and> localPromise E request_state result c1 = (Inr claims, c')
         \<and> (\<not> js_truthy claims \<longrightarrow> get_prop session ''profile'' = Inr claims)
         \<and> (\<forall>ps. claims = JObj ps \<longrightarrow>
              (\<exists>qs. get_prop session ''profile'' = Inr (JObj qs)
                 \<and> (\<forall>k \<in> {''nonce'', ''at_hash'', ''iat'', ''nbf'', ''exp'', ''aud'', ''iss'', ''idp''}.
                      k \<notin> fst ` set qs \<and> map_of qs k = None)
                 \<and> (\<forall>k. k \<notin> {''nonce'', ''at_hash'', ''iat'', ''nbf'', ''exp'', ''aud'', ''iss'', ''idp''} \<longrightarrow>
                      map_of qs k = map_of ps k)))"
proof -
  let ?keys = "{''nonce'', ''at_hash'', ''iat'', ''nbf'', ''exp'', ''aud'', ''iss'', ''idp''}"
  have keys: "set remove = ?keys"
    by (simp add: remove_def)
  define loaded where "loaded = (if js_truthy requestState then requestState
                       else request_state_store c (settings c ''request_state_key''))"
  define c1 where "c1 = (if js_truthy requestState then c
     else c\<lparr>request_state_store := (request_state_store c)(settings c ''request_state_key'' := JUndefined)\<rparr>)"
  have run: "process_with_state E result loaded c1 = (Inr session, c')"
    using assms(1) unfolding loaded_def c1_def
    by (cases "js_truthy requestState")
       (simp_all add: processResponseAsync_explicit processResponseAsync_stored)
  have f1: "js_truthy (settings c1 ''filter_protocol_claims'')"
    using assms(2) by (simp add: c1_def)
  from run obtain request_state claims c2 where
    p: "JSON_parse loaded = Inr request_state" and
    l: "localPromise E request_state result c1 = (Inr claims, c2)" and
    b: "build_session result claims c2 = (Inr session, c')"
    by (rule process_with_state_Inr)
  have f2: "js_truthy (settings c2 ''filter_protocol_claims'')"
    using preservesD(2) [OF preserves_localPromise l, of "''filter_protocol_claims''"] f1 by simp
  have c': "c' = c2" and prof: "get_prop session ''profile''
           = Inr (if js_truthy claims then foldl delete_prop claims remove else claims)"
    using build_session_profile [OF b] f2 by simp_all
  have obj: "\<exists>qs. get_prop session ''profile'' = Inr (JObj qs)
                 \<and> (\<forall>k \<in> ?keys. k \<notin> fst ` set qs \<and> map_of qs k = None)
                 \<and> (\<forall>k. k \<notin> ?keys \<longrightarrow> map_of qs k = map_of ps k)"
    if "claims = JObj ps" for ps
  proof -
    define qs where "qs = filter (\<lambda>p. fst p \<notin> ?keys) ps"
    have "get_prop session ''profile'' = Inr (JObj (filter (\<lambda>p. fst p \<notin> set remove) ps))"
      using prof that by (simp add: foldl_delete_prop)
    then have a: "get_prop session ''profile'' = Inr (JObj qs)"
      unfolding qs_def by (simp only: keys)
    have b: "\<forall>k \<in> ?keys. k \<notin> fst ` set qs \<and> map_of qs k = None"
      unfolding qs_def by (intro ballI filter_keys_removed)
    have c: "\<forall>k. k \<notin> ?keys \<longrightarrow> map_of qs k = map_of ps k"
      unfolding qs_def by (intro allI impI filter_keys_kept)
    show ?thesis
      by (intro exI [of _ qs] conjI a b c)
  qed
  have g1: "JSON_parse (if js_truthy requestState then requestState
                       else request_state_store c (settings c ''request_state_key'')) = Inr request_state"
    using p by (simp only: loaded_def)
  have g2: "localPromise E request_state result c1 = (Inr claims, c')"
    using l by (simp only: c')
  have g3: "\<not> js_truthy claims \<longrightarrow> get_prop session ''profile'' = Inr claims"
    using prof by simp
  have g4: "\<forall>ps. claims = JObj ps \<longrightarrow>
              (\<exists>qs. get_prop session ''profile'' = Inr (JObj qs)
                 \<and> (\<forall>k \<in> ?keys. k \<notin> fst ` set qs \<and> map_of qs k = None)
                 \<and> (\<forall>k. k \<notin> ?keys \<longrightarrow> map_of qs k = map_of ps k))"
    by (intro allI impI obj)
  show ?thesis
    by (rule exI [of _ request_state], rule exI [of _ c1], rule exI [of _ claims])
       (intro conjI g1 g2 g3 g4)
qed

theorem processResponse_filters_protocol_claims_witness:
  "processResponseAsync idp_env callback (JStr stored_request_state) fresh_client
     = (Inr app_session, fresh_client)
   \<and> js_truthy (settings fresh_client ''filter_protocol_claims'')
   \<and> localPromise idp_env (JObj parsed_request_state) callback fresh_client
        = (Inr (JObj idp_claims), fresh_client)
   \<and> map fst idp_claims
        = [''iss'', ''aud'', ''iat'', ''nbf'', ''exp'', ''nonce'', ''at_hash'', ''idp'', ''sub'']
   \<and> get_prop app_session ''profile'' = Inr (JObj [(''sub'', JStr ''alice'')])
   \<and> (\<exists>request_state c1 claims.
         JSON_parse (if js_truthy (JStr stored_request_state) then JStr stored_request_state
                     else request_state_store fresh_client (settings fresh_client ''request_state_key''))
           = Inr request_state
       \<and> localPromise idp_env request_state callback c1 = (Inr claims, fresh_client)
       \<and> (\<not> js_truthy claims \<longrightarrow> get_prop app_session ''profile'' = Inr claims)
       \<and> (\<forall>ps. claims = JObj ps \<longrightarrow>
            (\<exists>qs. get_prop app_session ''profile'' = Inr (JObj qs)
               \<and> (\<forall>k \<in> {''nonce'', ''at_hash'', ''iat'', ''nbf'', ''exp'', ''aud'', ''iss'', ''idp''}.
                    k \<notin> fst ` set qs \<and> map_of qs k = None)
               \<and> (\<forall>k. k \<notin> {''nonce'', ''at_hash'', ''iat'', ''nbf'', ''exp'', ''aud'', ''iss'', ''idp''} \<longrightarrow>
                    map_of qs k = map_of ps k))))"
proof -
  have s: "settings fresh_client = app_settings" by (simp add: fresh_client_def)
  have t: "js_truthy (JStr stored_request_state)"
    by (simp add: stored_request_state_def)
  have run: "processResponseAsync idp_env callback (JStr stored_request_state) fresh_client
     = (Inr app_session, fresh_client)"
    using processResponseAsync_explicit [OF t] app_process_with_state [OF s] by simp
  have f: "js_truthy (settings fresh_client ''filter_protocol_claims'')"
    by (simp add: s app_settings_values)
  have k: "map fst idp_claims
        = [''iss'', ''aud'', ''iat'', ''nbf'', ''exp'', ''nonce'', ''at_hash'', ''idp'', ''sub'']"
    by (simp add: idp_claims_def)
  have p: "get_prop app_session ''profile'' = Inr (JObj [(''sub'', JStr ''alice'')])"
    by (simp add: app_session_def)
  from processResponse_filters_protocol_claims [OF run f] run f app_localPromise [OF s] k p
  show ?thesis by (intro conjI)
qed


end
